theory Spec2Isabelle
  imports Complex_Main
begin

section \<open>The collapsible header controller of \<open>ion-header\<close>\<close>

text \<open>
  This theory embeds the class \<open>Header\<close> of
  \<open>core/src/components/header/header.tsx\<close>: the three lifecycle hooks, and the
  private methods \<open>checkCollapsibleHeader\<close>, \<open>destroyCollapsibleHeader\<close> and
  \<open>setupCollapsibleHeader\<close>.

  The functions \<open>checkCollapsibleHeader\<close> and \<open>setupCollapsibleHeader\<close> below give
  the effect of one update cycle that runs undisturbed: the lifecycle hook, the awaited
  promise, and the tasks it hands to \<open>readTask\<close> and \<open>writeTask\<close>, reads before
  writes, a nested read with the reads. The hooks are asynchronous and nothing
  serialises them, so the events of the model split a hook at the \<open>await\<close> and at
  the task queues, and other hooks and events may come in between. Inside one update
  cycle the document is the snapshot that the hook has seen.
\<close>

subsection \<open>The document\<close>

text \<open>
  An element carries what the controller reads: its tag name, its class list, its
  \<open>collapse\<close> property and its \<open>clientHeight\<close>. An element is identified by its
  position in the document, the path of child indices from the root; a node is an
  element together with its path.
\<close>

datatype elem =
  Elem (tag: string) (classes: "string list") (collapseProp: "string option")
       (clientHeight: nat) (kids: "elem list")

type_synonym path = "nat list"
type_synonym node = "path \<times> elem"

fun elemAt :: "elem \<Rightarrow> path \<Rightarrow> elem option" where
  "elemAt e [] = Some e"
| "elemAt e (i # p) = (if i < length (kids e) then elemAt (kids e ! i) p else None)"

text \<open>The element at a path and its ancestors, the root first; \<open>pre\<close> is the path walked so far.\<close>

fun chain :: "elem \<Rightarrow> path \<Rightarrow> path \<Rightarrow> node list" where
  "chain e pre [] = [(pre, e)]"
| "chain e pre (i # p) =
     (pre, e) # (if i < length (kids e) then chain (kids e ! i) (pre @ [i]) p else [])"

text \<open>
  \<open>Element.closest(selector)\<close>: the element itself or its nearest ancestor that
  matches, \<open>null\<close> when none does.
\<close>

definition closest :: "(elem \<Rightarrow> bool) \<Rightarrow> elem \<Rightarrow> path \<Rightarrow> node option" where
  "closest sel doc p =
     (case elemAt doc p of
        None \<Rightarrow> None
      | Some _ \<Rightarrow> find (\<lambda>n. sel (snd n)) (rev (chain doc [] p)))"

text \<open>The descendants of an element in document order (pre-order), the element itself excluded.\<close>

fun descendants :: "path \<Rightarrow> elem \<Rightarrow> node list"
  and descendantsFrom :: "path \<Rightarrow> nat \<Rightarrow> elem list \<Rightarrow> node list" where
  "descendants pre (Elem t cs c h ks) = descendantsFrom pre 0 ks"
| "descendantsFrom pre i [] = []"
| "descendantsFrom pre i (k # ks) =
     (pre @ [i], k) # descendants (pre @ [i]) k @ descendantsFrom pre (Suc i) ks"

definition querySelectorAll :: "(elem \<Rightarrow> bool) \<Rightarrow> node \<Rightarrow> node list" where
  "querySelectorAll sel n = filter (\<lambda>d. sel (snd d)) (descendants (fst n) (snd n))"

definition querySelector :: "(elem \<Rightarrow> bool) \<Rightarrow> node \<Rightarrow> node option" where
  "querySelector sel n = find (\<lambda>d. sel (snd d)) (descendants (fst n) (snd n))"

text \<open>The selectors of the source: a tag name, and \<open>ion-app,ion-page,.ion-page,page-inner\<close>.\<close>

definition isTag :: "string \<Rightarrow> elem \<Rightarrow> bool" where
  "isTag t e = (tag e = t)"

definition pageSelector :: "elem \<Rightarrow> bool" where
  "pageSelector e =
     (tag e = ''ion-app'' \<or> tag e = ''ion-page'' \<or> ''ion-page'' \<in> set (classes e)
      \<or> tag e = ''page-inner'')"

subsection \<open>Header indices and the two callbacks\<close>

record toolbarIndex =
  tb_el :: node

record headerIndex =
  h_el :: node
  toolbars :: "toolbarIndex list"

text \<open>
  Modelled from the spec: \<open>createHeaderIndex\<close> of \<open>header.utils\<close>, which is not among
  the sources. Given a header element it lists the header's toolbars in document order,
  and fails (\<open>NoToolbarsFound\<close>) when the header has no toolbar. Of a toolbar's
  descriptor only the element is read by \<open>header.tsx\<close>; the background and title
  references are left out.
\<close>

definition createHeaderIndex :: "node \<Rightarrow> headerIndex option" where
  "createHeaderIndex headerEl =
     (let tbs = querySelectorAll (isTag ''ion-toolbar'') headerEl
      in if tbs = [] then None
         else Some \<lparr>h_el = headerEl, toolbars = map (\<lambda>t. \<lparr>tb_el = t\<rparr>) tbs\<rparr>)"

text \<open>
  The closure \<open>contentScrollCallback\<close> with the variables it captures, and the
  \<open>IntersectionObserver\<close> with its options, the indices its callback
  \<open>toolbarIntersection\<close> captures, and the elements it observes.
\<close>

record scrollCallback =
  cb_scrollEl :: path
  cb_main :: headerIndex
  cb_scroll :: headerIndex
  cb_remainingHeight :: nat

record margins =
  m_top :: int
  m_right :: int
  m_bottom :: int
  m_left :: int

record observer =
  threshold :: rat
  rootMargin :: margins
  ob_main :: headerIndex
  ob_scroll :: headerIndex
  targets :: "node list"

subsection \<open>The state\<close>

text \<open>
  The first four fields are the private fields of the class. The others are what the
  page holds: the scroll listeners registered on elements, the observers created and not
  yet disconnected (each under the handle the class keeps), the active flag of every
  header, the mirror clones in the document, and the lines written by
  \<open>console.error\<close>.
\<close>

record state =
  collapsibleHeaderInitialized :: bool
  scrollEl :: "path option"
  contentScrollCallback :: "scrollCallback option"
  intersectionObserver :: "nat option"
  listeners :: "(path \<times> scrollCallback) list"
  observers :: "(nat \<times> observer) list"
  nextObserver :: nat
  isActive :: "path \<Rightarrow> bool"
  clones :: "string list"
  titleScale :: rat
  borderVisible :: bool
  console :: "string list"

text \<open>
  What one update cycle sees: the document, the position of the header's own element
  (\<open>this.el\<close>), the result of \<open>getIonMode(this)\<close>, and the scroll element that the
  content's \<open>getScrollElement()\<close> resolves to.
\<close>

record env =
  document :: elem
  self :: path
  mode :: string
  getScrollElement :: "path \<Rightarrow> path option"

text \<open>\<open>this.collapse\<close>: the property of the header's own element.\<close>

definition thisCollapse :: "env \<Rightarrow> string option" where
  "thisCollapse ev =
     (case elemAt (document ev) (self ev) of None \<Rightarrow> None | Some e \<Rightarrow> collapseProp e)"

text \<open>\<open>this.el\<close> as a node of the document.\<close>

definition selfNode :: "env \<Rightarrow> node option" where
  "selfNode ev =
     (case elemAt (document ev) (self ev) of None \<Rightarrow> None | Some e \<Rightarrow> Some (self ev, e))"

text \<open>
  The state of a new instance on a page that holds nothing of it yet. The active flags
  of the headers are those of the page, given as the argument.
\<close>

definition fresh :: "(path \<Rightarrow> bool) \<Rightarrow> state" where
  "fresh act =
     \<lparr>collapsibleHeaderInitialized = False, scrollEl = None, contentScrollCallback = None,
      intersectionObserver = None, listeners = [], observers = [], nextObserver = 0,
      isActive = act, clones = [], titleScale = 1, borderVisible = False, console = []\<rparr>"

subsection \<open>The helpers of \<open>header.utils\<close>\<close>

text \<open>
  Modelled from the spec: \<open>setHeaderActive\<close> of \<open>header.utils\<close>, which is not among
  the sources. It sets the active flag of the header that the index describes.
\<close>

definition setHeaderActive :: "headerIndex \<Rightarrow> bool \<Rightarrow> state \<Rightarrow> state" where
  "setHeaderActive headerIndex active s =
     s\<lparr>isActive := (isActive s)(fst (h_el headerIndex) := active)\<rparr>"

text \<open>
  Modelled from the spec: \<open>handleToolbarIntersection\<close> of \<open>header.utils\<close>, which is not
  among the sources. When the intersection ratio of the condensing toolbar is below the
  cutoff, the primary header becomes active and the condensing header inactive, and the
  other way round when the toolbar re-enters. The spec leaves the value of the cutoff
  open, so it is a parameter.
\<close>

definition handleToolbarIntersection ::
    "rat \<Rightarrow> rat \<Rightarrow> headerIndex \<Rightarrow> headerIndex \<Rightarrow> state \<Rightarrow> state" where
  "handleToolbarIntersection cutoff ratio mainHeaderIndex scrollHeaderIndex s =
     (let collapsed = (ratio < cutoff)
      in setHeaderActive scrollHeaderIndex (\<not> collapsed)
           (setHeaderActive mainHeaderIndex collapsed s))"

text \<open>
  Modelled from the spec: the scale law of \<open>handleContentScroll\<close> of \<open>header.utils\<close>,
  which is not among the sources: a linear interpolation from 1 at the top of the content
  to the minimum scale once the scroll offset has consumed the distance, clamped to the
  interval from the minimum scale to 1. Numbers are rationals, not doubles.
\<close>

definition clamp :: "rat \<Rightarrow> rat \<Rightarrow> rat \<Rightarrow> rat" where
  "clamp lo n hi = max lo (min n hi)"

definition titleScaleFactor :: "rat \<Rightarrow> rat \<Rightarrow> rat \<Rightarrow> rat" where
  "titleScaleFactor minScale distance scrollTop =
     clamp minScale (1 - (1 - minScale) * scrollTop / distance) 1"

text \<open>
  Modelled from the spec: \<open>handleContentScroll\<close> of \<open>header.utils\<close>, which is not among
  the sources. The title scale interpolates over the remaining height, and the border of
  the last toolbar is visible once the scroll offset has passed zero.
\<close>

definition handleContentScroll :: "rat \<Rightarrow> rat \<Rightarrow> scrollCallback \<Rightarrow> state \<Rightarrow> state" where
  "handleContentScroll minScale scrollTop cb s =
     s\<lparr>titleScale := titleScaleFactor minScale (of_nat (cb_remainingHeight cb)) scrollTop,
       borderVisible := (0 < scrollTop)\<rparr>"

text \<open>
  Modelled from the spec: \<open>cloneElement\<close> of \<open>header.utils\<close>, which is not among the
  sources. It is called with a tag name only. It adds the mirror clone of that tag, and
  does nothing when the clone exists already.
\<close>

definition cloneElement :: "string \<Rightarrow> state \<Rightarrow> state" where
  "cloneElement tagName s =
     (if tagName \<in> set (clones s) then s else s\<lparr>clones := clones s @ [tagName]\<rparr>)"

subsection \<open>The controller\<close>

text \<open>\<open>canCollapse\<close> of \<open>checkCollapsibleHeader\<close>.\<close>

definition canCollapse :: "env \<Rightarrow> bool" where
  "canCollapse ev =
     (let hasCollapse = (thisCollapse ev = Some ''condense'')
      in if hasCollapse \<and> mode ev = ''ios'' then hasCollapse else False)"

definition destroyCollapsibleHeader :: "state \<Rightarrow> state" where
  "destroyCollapsibleHeader s =
     (let s1 = (case intersectionObserver s of
                  None \<Rightarrow> s
                | Some h \<Rightarrow> s\<lparr>observers := filter (\<lambda>ob. fst ob \<noteq> h) (observers s),
                              intersectionObserver := None\<rparr>)
      in case scrollEl s1 of
           None \<Rightarrow> s1
         | Some el \<Rightarrow>
             (case contentScrollCallback s1 of
                None \<Rightarrow> s1
              | Some cb \<Rightarrow> s1\<lparr>listeners := remove1 (el, cb) (listeners s1),
                              contentScrollCallback := None\<rparr>))"

text \<open>The loop that sums the heights of the toolbars below the first.\<close>

function remainingHeightLoop :: "nat \<Rightarrow> toolbarIndex list \<Rightarrow> nat \<Rightarrow> nat" where
  "remainingHeightLoop i tbs remainingHeight =
     (if int i \<le> int (length tbs) - 1
      then remainingHeightLoop (i + 1) tbs
             (remainingHeight + clientHeight (snd (tb_el (tbs ! i))))
      else remainingHeight)"
  by pat_completeness auto
termination
  by (relation "measure (\<lambda>(i, tbs, r). length tbs - i)") auto

declare remainingHeightLoop.simps [simp del]

text \<open>The primary header: the first \<open>ion-header\<close> of the page that does not condense.\<close>

definition findMainHeader :: "node \<Rightarrow> node option" where
  "findMainHeader pageEl =
     find (\<lambda>header. collapseProp (snd header) \<noteq> Some ''condense'')
       (querySelectorAll (isTag ''ion-header'') pageEl)"

text \<open>
  The outer read task of \<open>setupCollapsibleHeader\<close>. It returns the state and, when it
  got that far, the two indices for the nested read task it has queued.
\<close>

definition setupReadTask ::
    "env \<Rightarrow> node \<Rightarrow> state \<Rightarrow> state \<times> (headerIndex \<times> headerIndex) option" where
  "setupReadTask ev pageEl s =
     (case findMainHeader pageEl of
        None \<Rightarrow> (s, None)
      | Some mainHeader \<Rightarrow>
     (case scrollEl s of
        None \<Rightarrow> (s, None)
      | Some sEl \<Rightarrow>
     (case createHeaderIndex mainHeader of
        None \<Rightarrow> (s, None)
      | Some mainHeaderIndex \<Rightarrow>
     (case Option.bind (selfNode ev) createHeaderIndex of
        None \<Rightarrow> (s, None)
      | Some scrollHeaderIndex \<Rightarrow>
          (let s1 = setHeaderActive mainHeaderIndex False s;
               remainingHeight = remainingHeightLoop 1 (toolbars scrollHeaderIndex) 0;
               cb = \<lparr>cb_scrollEl = sEl, cb_main = mainHeaderIndex,
                     cb_scroll = scrollHeaderIndex, cb_remainingHeight = remainingHeight\<rparr>
           in (s1\<lparr>contentScrollCallback := Some cb,
                   listeners := listeners s1 @ [(sEl, cb)]\<rparr>,
               Some (mainHeaderIndex, scrollHeaderIndex)))))))"

text \<open>
  The nested read task: it creates the observer and observes the first toolbar of the
  condensing header. On an empty toolbar list \<open>toolbars[0]\<close> is undefined and reading
  its \<open>el\<close> throws inside the task, after the observer has been stored.
\<close>

definition observerReadTask :: "headerIndex \<Rightarrow> headerIndex \<Rightarrow> state \<Rightarrow> state" where
  "observerReadTask mainHeaderIndex scrollHeaderIndex s =
     (let mainHeaderHeight = clientHeight (snd (h_el mainHeaderIndex));
          ob = \<lparr>threshold = 1 / 4,
                rootMargin = \<lparr>m_top = - int mainHeaderHeight, m_right = 0,
                               m_bottom = 0, m_left = 0\<rparr>,
                ob_main = mainHeaderIndex, ob_scroll = scrollHeaderIndex, targets = []\<rparr>;
          h = nextObserver s;
          s1 = s\<lparr>intersectionObserver := Some h, nextObserver := Suc h\<rparr>
      in case toolbars scrollHeaderIndex of
           [] \<Rightarrow> s1\<lparr>observers := observers s @ [(h, ob)]\<rparr>
         | t # _ \<Rightarrow> s1\<lparr>observers := observers s @ [(h, ob\<lparr>targets := [tb_el t]\<rparr>)]\<rparr>)"

text \<open>The write task.\<close>

definition setupWriteTask :: "state \<Rightarrow> state" where
  "setupWriteTask s = cloneElement ''ion-back-button'' (cloneElement ''ion-title'' s)"

definition contentErrorMessage :: string where
  "contentErrorMessage =
     ''ion-header requires a content to collapse, make sure there is an ion-content.''"

text \<open>
  \<open>setupCollapsibleHeader\<close>: the guard, then the synchronous part (the scroll element
  and, at the end of the method, the initialized flag), then the queued tasks.
\<close>

definition setupCollapsibleHeader ::
    "env \<Rightarrow> node option \<Rightarrow> node option \<Rightarrow> state \<Rightarrow> state" where
  "setupCollapsibleHeader ev contentEl pageEl s =
     (case contentEl of
        None \<Rightarrow> s\<lparr>console := console s @ [contentErrorMessage]\<rparr>
      | Some c \<Rightarrow>
     (case pageEl of
        None \<Rightarrow> s\<lparr>console := console s @ [contentErrorMessage]\<rparr>
      | Some pg \<Rightarrow>
          (let s1 = s\<lparr>scrollEl := getScrollElement ev (fst c)\<rparr>;
               s2 = s1\<lparr>collapsibleHeaderInitialized := True\<rparr>;
               r = setupReadTask ev pg s2;
               s3 = (case snd r of
                       None \<Rightarrow> fst r
                     | Some idx \<Rightarrow> observerReadTask (fst idx) (snd idx) (fst r))
           in setupWriteTask s3)))"

text \<open>The page container and the content that \<open>checkCollapsibleHeader\<close> looks up.\<close>

definition locatePageEl :: "env \<Rightarrow> node option" where
  "locatePageEl ev =
     (let tabs = closest (isTag ''ion-tabs'') (document ev) (self ev);
          page = closest pageSelector (document ev) (self ev)
      in case tabs of
           Some t \<Rightarrow> Some t
         | None \<Rightarrow> (case page of Some p \<Rightarrow> Some p | None \<Rightarrow> None))"

definition locateContentEl :: "env \<Rightarrow> node option" where
  "locateContentEl ev =
     (case locatePageEl ev of
        Some pageEl \<Rightarrow> querySelector (isTag ''ion-content'') pageEl
      | None \<Rightarrow> None)"

definition checkCollapsibleHeader :: "env \<Rightarrow> state \<Rightarrow> state" where
  "checkCollapsibleHeader ev s =
     (if \<not> canCollapse ev \<and> collapsibleHeaderInitialized s then destroyCollapsibleHeader s
      else if canCollapse ev \<and> \<not> collapsibleHeaderInitialized s
      then setupCollapsibleHeader ev (locateContentEl ev) (locatePageEl ev) s
      else s)"

subsection \<open>Lifecycle hooks and events\<close>

text \<open>
  A scroll event on an element runs the listeners registered on it; an intersection
  event runs the callback of the observer with that handle, if it is live and observes
  something.
\<close>

definition fireScroll :: "rat \<Rightarrow> path \<Rightarrow> rat \<Rightarrow> state \<Rightarrow> state" where
  "fireScroll minScale el scrollTop s =
     fold (\<lambda>l t. if fst l = el then handleContentScroll minScale scrollTop (snd l) t else t)
       (listeners s) s"

definition fireIntersection :: "rat \<Rightarrow> nat \<Rightarrow> rat \<Rightarrow> state \<Rightarrow> state" where
  "fireIntersection cutoff h ratio s =
     (case map_of (observers s) h of
        None \<Rightarrow> s
      | Some ob \<Rightarrow>
          if targets ob = [] then s
          else handleToolbarIntersection cutoff ratio (ob_main ob) (ob_scroll ob) s)"

text \<open>
  \<open>componentDidLoad\<close> and \<open>componentDidUpdate\<close> are \<open>async\<close>. A hook runs
  synchronously up to the \<open>await\<close> of \<open>getScrollElement()\<close> in
  \<open>setupCollapsibleHeader\<close> and is suspended there. When the promise resolves, the hook
  runs on to the end of the method: it stores the scroll element, hands its callbacks to
  \<open>readTask\<close> and \<open>writeTask\<close>, and sets the initialized flag. The callbacks run at
  the next frame. Beside the state, the page therefore holds the hooks suspended at the
  \<open>await\<close> (each with its environment, its content and its page container), the queued
  read callbacks (each with its environment and its page container), and the number of
  queued write callbacks.
\<close>

record system =
  ctl :: state
  awaiting :: "(env \<times> node \<times> node) list"
  readTasks :: "(env \<times> node) list"
  writeTasks :: nat

definition quiet :: "state \<Rightarrow> system" where
  "quiet s = \<lparr>ctl = s, awaiting = [], readTasks = [], writeTasks = 0\<rparr>"

text \<open>A hook from its start to the \<open>await\<close>, or to its end when it does not get there.\<close>

definition enterHook :: "env \<Rightarrow> system \<Rightarrow> system" where
  "enterHook ev p =
     (if \<not> canCollapse ev \<and> collapsibleHeaderInitialized (ctl p)
      then p\<lparr>ctl := destroyCollapsibleHeader (ctl p)\<rparr>
      else if canCollapse ev \<and> \<not> collapsibleHeaderInitialized (ctl p)
      then (case locateContentEl ev of
              None \<Rightarrow> p\<lparr>ctl := (ctl p)\<lparr>console := console (ctl p) @ [contentErrorMessage]\<rparr>\<rparr>
            | Some c \<Rightarrow>
           (case locatePageEl ev of
              None \<Rightarrow> p\<lparr>ctl := (ctl p)\<lparr>console := console (ctl p) @ [contentErrorMessage]\<rparr>\<rparr>
            | Some pg \<Rightarrow> p\<lparr>awaiting := awaiting p @ [(ev, c, pg)]\<rparr>))
      else p)"

text \<open>The suspended hook number \<open>k\<close> from the \<open>await\<close> to the end of the method.\<close>

definition resumeHook :: "nat \<Rightarrow> system \<Rightarrow> system" where
  "resumeHook k p =
     (if k < length (awaiting p)
      then (case awaiting p ! k of
              (ev, c, pg) \<Rightarrow>
                p\<lparr>ctl := (ctl p)\<lparr>scrollEl := getScrollElement ev (fst c),
                                 collapsibleHeaderInitialized := True\<rparr>,
                  awaiting := take k (awaiting p) @ drop (Suc k) (awaiting p),
                  readTasks := readTasks p @ [(ev, pg)],
                  writeTasks := Suc (writeTasks p)\<rparr>)
      else p)"

text \<open>
  A frame: the queued read callbacks in their order, then the read callbacks they have
  queued themselves, then the write callbacks.
\<close>

definition runReadTasks ::
    "(env \<times> node) list \<Rightarrow> state \<Rightarrow> state \<times> (headerIndex \<times> headerIndex) list" where
  "runReadTasks ts s =
     fold (\<lambda>t r. let q = setupReadTask (fst t) (snd t) (fst r)
                 in (fst q, snd r @ (case snd q of None \<Rightarrow> [] | Some idx \<Rightarrow> [idx])))
       ts (s, [])"

definition runNestedReadTasks :: "(headerIndex \<times> headerIndex) list \<Rightarrow> state \<Rightarrow> state" where
  "runNestedReadTasks ns s = fold (\<lambda>idx t. observerReadTask (fst idx) (snd idx) t) ns s"

definition runWriteTasks :: "nat \<Rightarrow> state \<Rightarrow> state" where
  "runWriteTasks n s = (setupWriteTask ^^ n) s"

definition frame :: "system \<Rightarrow> system" where
  "frame p =
     (let r = runReadTasks (readTasks p) (ctl p);
          s1 = runNestedReadTasks (snd r) (fst r);
          s2 = runWriteTasks (writeTasks p) s1
      in p\<lparr>ctl := s2, readTasks := [], writeTasks := 0\<rparr>)"

datatype event =
  ComponentDidLoad env
| ComponentDidUpdate env
| ComponentDidUnload
| PromiseResolved nat
| Frame
| ScrollEvent path rat
| IntersectionEvent nat rat

fun step :: "rat \<Rightarrow> rat \<Rightarrow> system \<Rightarrow> event \<Rightarrow> system" where
  "step cutoff minScale p (ComponentDidLoad ev) = enterHook ev p"
| "step cutoff minScale p (ComponentDidUpdate ev) = enterHook ev p"
| "step cutoff minScale p ComponentDidUnload = p\<lparr>ctl := destroyCollapsibleHeader (ctl p)\<rparr>"
| "step cutoff minScale p (PromiseResolved k) = resumeHook k p"
| "step cutoff minScale p Frame = frame p"
| "step cutoff minScale p (ScrollEvent el scrollTop) =
     p\<lparr>ctl := fireScroll minScale el scrollTop (ctl p)\<rparr>"
| "step cutoff minScale p (IntersectionEvent h ratio) =
     p\<lparr>ctl := fireIntersection cutoff h ratio (ctl p)\<rparr>"

definition run :: "rat \<Rightarrow> rat \<Rightarrow> system \<Rightarrow> event list \<Rightarrow> system" where
  "run cutoff minScale p evs = foldl (step cutoff minScale) p evs"

subsection \<open>Vocabulary of the statements\<close>

text \<open>
  An update cycle sets the collapsible header up when every lookup of
  \<open>checkCollapsibleHeader\<close> and \<open>setupCollapsibleHeader\<close> finds what it looks for: the
  page container, the content, its scroll element \<open>sEl\<close>, the primary header with its
  index \<open>mainHeaderIndex\<close>, and the index \<open>scrollHeaderIndex\<close> of the header itself.
\<close>

definition setupSucceeds ::
    "env \<Rightarrow> state \<Rightarrow> path \<Rightarrow> headerIndex \<Rightarrow> headerIndex \<Rightarrow> bool" where
  "setupSucceeds ev s sEl mainHeaderIndex scrollHeaderIndex =
     (canCollapse ev \<and> \<not> collapsibleHeaderInitialized s \<and>
      (case locatePageEl ev of
         None \<Rightarrow> False
       | Some pageEl \<Rightarrow>
      (case locateContentEl ev of
         None \<Rightarrow> False
       | Some contentEl \<Rightarrow>
           getScrollElement ev (fst contentEl) = Some sEl \<and>
           Option.bind (findMainHeader pageEl) createHeaderIndex = Some mainHeaderIndex \<and>
           Option.bind (selfNode ev) createHeaderIndex = Some scrollHeaderIndex)))"

text \<open>The closure and the observer that a successful setup registers.\<close>

definition registeredCallback :: "path \<Rightarrow> headerIndex \<Rightarrow> headerIndex \<Rightarrow> scrollCallback" where
  "registeredCallback sEl mi si =
     \<lparr>cb_scrollEl = sEl, cb_main = mi, cb_scroll = si,
      cb_remainingHeight = remainingHeightLoop 1 (toolbars si) 0\<rparr>"

definition createdObserver :: "headerIndex \<Rightarrow> headerIndex \<Rightarrow> observer" where
  "createdObserver mi si =
     \<lparr>threshold = 1 / 4,
      rootMargin = \<lparr>m_top = - int (clientHeight (snd (h_el mi))), m_right = 0,
                     m_bottom = 0, m_left = 0\<rparr>,
      ob_main = mi, ob_scroll = si, targets = [tb_el (toolbars si ! 0)]\<rparr>"


subsection \<open>Example documents\<close>

text \<open>
  The settings page of the documentation: a primary header with one toolbar, and inside
  the content a header with a large title and a search toolbar. The argument is the
  \<open>collapse\<close> property of the second header.
\<close>

definition toolbarEl :: "nat \<Rightarrow> string \<Rightarrow> elem" where
  "toolbarEl h inner = Elem ''ion-toolbar'' [] None h [Elem inner [] None h []]"

definition condensingHeaderEl :: "string option \<Rightarrow> elem" where
  "condensingHeaderEl c =
     Elem ''ion-header'' [] c 100 [toolbarEl 52 ''ion-title'', toolbarEl 48 ''ion-searchbar'']"

definition primaryHeaderEl :: elem where
  "primaryHeaderEl = Elem ''ion-header'' [] None 44 [toolbarEl 44 ''ion-title'']"

definition settingsPage :: "string option \<Rightarrow> elem" where
  "settingsPage c =
     Elem ''ion-app'' [] None 800
       [primaryHeaderEl, Elem ''ion-content'' [] None 756 [condensingHeaderEl c]]"

definition settingsEnv :: "string option \<Rightarrow> string \<Rightarrow> env" where
  "settingsEnv c m =
     \<lparr>document = settingsPage c, self = [1, 0], mode = m, getScrollElement = Some\<rparr>"

definition primaryIndex :: headerIndex where
  "primaryIndex =
     \<lparr>h_el = ([0], primaryHeaderEl),
      toolbars = [\<lparr>tb_el = ([0, 0], toolbarEl 44 ''ion-title'')\<rparr>]\<rparr>"

definition condensingIndex :: headerIndex where
  "condensingIndex =
     \<lparr>h_el = ([1, 0], condensingHeaderEl (Some ''condense'')),
      toolbars = [\<lparr>tb_el = ([1, 0, 0], toolbarEl 52 ''ion-title'')\<rparr>,
                  \<lparr>tb_el = ([1, 0, 1], toolbarEl 48 ''ion-searchbar'')\<rparr>]\<rparr>"

definition allActive :: "path \<Rightarrow> bool" where
  "allActive p = True"

text \<open>A page with a content and a condensing header in it, and no primary header.\<close>

definition orphanPage :: elem where
  "orphanPage =
     Elem ''ion-app'' [] None 800
       [Elem ''ion-content'' [] None 800 [condensingHeaderEl (Some ''condense'')]]"

definition orphanEnv :: env where
  "orphanEnv =
     \<lparr>document = orphanPage, self = [0, 0], mode = ''ios'', getScrollElement = Some\<rparr>"

text \<open>A page whose header has no content beside it.\<close>

definition bareEnv :: env where
  "bareEnv =
     \<lparr>document = Elem ''ion-app'' [] None 800 [condensingHeaderEl (Some ''condense'')],
      self = [0], mode = ''ios'', getScrollElement = Some\<rparr>"

text \<open>
  A page inside tabs: the nearest page-like ancestor of the header is the \<open>div\<close> of
  class \<open>ion-page\<close>, the tabs element is further out. The first header of the tabs
  condenses, the second does not.
\<close>

definition tabsEl :: elem where
  "tabsEl =
     Elem ''ion-tabs'' [] None 800
       [Elem ''div'' [''ion-page''] None 800
          [Elem ''ion-header'' [] (Some ''condense'') 10 [],
           primaryHeaderEl,
           Elem ''ion-content'' [] None 756 [condensingHeaderEl (Some ''condense'')]]]"

definition tabsPage :: elem where
  "tabsPage = Elem ''ion-app'' [] None 800 [tabsEl]"

definition tabsEnv :: env where
  "tabsEnv =
     \<lparr>document = tabsPage, self = [0, 0, 2, 0], mode = ''ios'', getScrollElement = Some\<rparr>"

text \<open>
  The states of the settings page after the first update cycle with collapsing on, and
  after a later cycle with the \<open>collapse\<close> property removed.
\<close>

definition settingsActive :: state where
  "settingsActive =
     checkCollapsibleHeader (settingsEnv (Some ''condense'') ''ios'') (fresh allActive)"

definition settingsTornDown :: state where
  "settingsTornDown = checkCollapsibleHeader (settingsEnv None ''ios'') settingsActive"

text \<open>The state of the page without a primary header after its first update cycle.\<close>

definition orphanState :: state where
  "orphanState = checkCollapsibleHeader orphanEnv (fresh allActive)"

text \<open>A page on which no header is marked active.\<close>

definition noneActive :: "path \<Rightarrow> bool" where
  "noneActive p = False"

text \<open>The observer that the setup creates on the page inside tabs.\<close>

definition tabsObserver :: observer where
  "tabsObserver =
     \<lparr>threshold = 1 / 4,
      rootMargin = \<lparr>m_top = - 44, m_right = 0, m_bottom = 0, m_left = 0\<rparr>,
      ob_main = \<lparr>h_el = ([0, 0, 1], primaryHeaderEl),
                  toolbars = [\<lparr>tb_el = ([0, 0, 1, 0], toolbarEl 44 ''ion-title'')\<rparr>]\<rparr>,
      ob_scroll = \<lparr>h_el = ([0, 0, 2, 0], condensingHeaderEl (Some ''condense'')),
                    toolbars = [\<lparr>tb_el = ([0, 0, 2, 0, 0], toolbarEl 52 ''ion-title'')\<rparr>,
                                \<lparr>tb_el = ([0, 0, 2, 0, 1], toolbarEl 48 ''ion-searchbar'')\<rparr>]\<rparr>,
      targets = [([0, 0, 2, 0, 0], toolbarEl 52 ''ion-title'')]\<rparr>"

text \<open>
  Two update hooks on the settings page that overlap: the second starts while the first
  is suspended at the \<open>await\<close>. In the first run both resume before the next frame.
  In the second run the first hook completes its setup and an intersection callback
  marks the primary header active before the second hook resumes.
\<close>

definition overlappingHooks :: "event list" where
  "overlappingHooks =
     [ComponentDidLoad (settingsEnv (Some ''condense'') ''ios''),
      ComponentDidUpdate (settingsEnv (Some ''condense'') ''ios''),
      PromiseResolved 0, PromiseResolved 0, Frame]"

definition lateSecondSetup :: "event list" where
  "lateSecondSetup =
     [ComponentDidLoad (settingsEnv (Some ''condense'') ''ios''),
      ComponentDidUpdate (settingsEnv (Some ''condense'') ''ios''),
      PromiseResolved 0, Frame, IntersectionEvent 0 0, PromiseResolved 0, Frame]"

section \<open>Properties\<close>

subsection \<open>The document\<close>

lemma elemAt_append: "elemAt d p = Some e \<Longrightarrow> elemAt d (p @ r) = elemAt e r"
  by (induction p arbitrary: d) (auto split: if_splits)

lemma descendants_elemAt:
  "(q, e) \<in> set (descendants pre e0) \<Longrightarrow> \<exists>r. q = pre @ r \<and> elemAt e0 r = Some e"
  "(q, e) \<in> set (descendantsFrom pre i ks) \<Longrightarrow>
     \<exists>j r. j < length ks \<and> q = pre @ (i + j) # r \<and> elemAt (ks ! j) r = Some e"
proof (induction pre e0 and pre i ks arbitrary: q e and q e rule: descendants_descendantsFrom.induct)
  case (1 pre t cs c h ks)
  from "1.IH" [OF "1.prems" [simplified]]
  obtain j r where "j < length ks" "q = pre @ (0 + j) # r" "elemAt (ks ! j) r = Some e"
    by blast
  then have "q = pre @ (j # r) \<and> elemAt (Elem t cs c h ks) (j # r) = Some e" by simp
  then show ?case by blast
next
  case (2 pre i)
  then show ?case by simp
next
  case (3 pre i k ks)
  from "3.prems" consider
      (here) "q = pre @ [i]" "e = k"
    | (below) "(q, e) \<in> set (descendants (pre @ [i]) k)"
    | (later) "(q, e) \<in> set (descendantsFrom pre (Suc i) ks)"
    by auto
  then show ?case
  proof cases
    case here
    then have "0 < length (k # ks) \<and> q = pre @ (i + 0) # [] \<and> elemAt ((k # ks) ! 0) [] = Some e"
      by simp
    then show ?thesis by blast
  next
    case below
    from "3.IH"(1) [OF below] obtain r where "q = (pre @ [i]) @ r" "elemAt k r = Some e"
      by blast
    then have "0 < length (k # ks) \<and> q = pre @ (i + 0) # r \<and> elemAt ((k # ks) ! 0) r = Some e"
      by simp
    then show ?thesis by blast
  next
    case later
    from "3.IH"(2) [OF later] obtain j r where
      "j < length ks" "q = pre @ (Suc i + j) # r" "elemAt (ks ! j) r = Some e"
      by blast
    then have "Suc j < length (k # ks) \<and> q = pre @ (i + Suc j) # r
               \<and> elemAt ((k # ks) ! Suc j) r = Some e"
      by simp
    then show ?thesis by blast
  qed
qed

lemma chain_elemAt:
  "elemAt d pre = Some e0 \<Longrightarrow> (q, e) \<in> set (chain e0 pre p) \<Longrightarrow> elemAt d q = Some e"
proof (induction p arbitrary: e0 pre)
  case Nil
  then show ?case by simp
next
  case (Cons i p)
  show ?case
  proof (cases "(q, e) = (pre, e0)")
    case True
    with Cons.prems show ?thesis by simp
  next
    case False
    with Cons.prems have lt: "i < length (kids e0)"
      and mem: "(q, e) \<in> set (chain (kids e0 ! i) (pre @ [i]) p)"
      by (auto split: if_splits)
    have "elemAt d (pre @ [i]) = Some (kids e0 ! i)"
      using Cons.prems(1) lt by (simp add: elemAt_append)
    from Cons.IH [OF this mem] show ?thesis .
  qed
qed

lemma find_SomeD: "find P xs = Some x \<Longrightarrow> x \<in> set xs \<and> P x"
  by (induction xs) (auto split: if_splits)

lemma closest_elemAt:
  assumes "closest sel d p = Some n"
  shows "elemAt d (fst n) = Some (snd n) \<and> sel (snd n)"
proof -
  from assms have f: "find (\<lambda>n. sel (snd n)) (rev (chain d [] p)) = Some n"
    by (auto simp: closest_def split: option.splits)
  then have "n \<in> set (chain d [] p)" and s: "sel (snd n)"
    by (auto dest: find_SomeD)
  then have "(fst n, snd n) \<in> set (chain d [] p)" by simp
  from chain_elemAt [OF _ this, of d] s show ?thesis by simp
qed

lemma querySelectorAll_elemAt:
  assumes "elemAt d (fst n) = Some (snd n)" and "m \<in> set (querySelectorAll sel n)"
  shows "elemAt d (fst m) = Some (snd m) \<and> sel (snd m)"
proof -
  from assms(2) have "(fst m, snd m) \<in> set (descendants (fst n) (snd n))" and s: "sel (snd m)"
    by (auto simp: querySelectorAll_def)
  from descendants_elemAt(1) [OF this(1)] obtain r where
    "fst m = fst n @ r" "elemAt (snd n) r = Some (snd m)" by blast
  with assms(1) s show ?thesis by (simp add: elemAt_append)
qed

text \<open>
  \<open>closest\<close> returns the element itself or an ancestor, one that matches the
  selector, and none of the elements between it and the starting element matches.
\<close>

lemma chain_nth:
  "elemAt e p \<noteq> None \<Longrightarrow>
     length (chain e pre p) = Suc (length p)
     \<and> (\<forall>k \<le> length p. \<exists>a. elemAt e (take k p) = Some a
            \<and> chain e pre p ! k = (pre @ take k p, a))"
proof (induction p arbitrary: e pre)
  case Nil
  then show ?case by simp
next
  case (Cons i p)
  from Cons.prems have lt: "i < length (kids e)" and sub: "elemAt (kids e ! i) p \<noteq> None"
    by (auto split: if_splits)
  from Cons.IH [OF sub, of "pre @ [i]"]
  have len: "length (chain (kids e ! i) (pre @ [i]) p) = Suc (length p)"
    and nth: "\<forall>k \<le> length p. \<exists>a. elemAt (kids e ! i) (take k p) = Some a
                \<and> chain (kids e ! i) (pre @ [i]) p ! k = ((pre @ [i]) @ take k p, a)"
    by auto
  have "\<exists>a. elemAt e (take k (i # p)) = Some a
          \<and> chain e pre (i # p) ! k = (pre @ take k (i # p), a)"
    if "k \<le> length (i # p)" for k
  proof (cases k)
    case 0
    then show ?thesis by simp
  next
    case (Suc k')
    with that have "k' \<le> length p" by simp
    with nth obtain a where "elemAt (kids e ! i) (take k' p) = Some a"
      "chain (kids e ! i) (pre @ [i]) p ! k' = ((pre @ [i]) @ take k' p, a)"
      by blast
    with Suc lt show ?thesis by simp
  qed
  with len lt show ?case by simp
qed

lemma find_rev_Some:
  "find P (rev xs) = Some x \<Longrightarrow>
     \<exists>k < length xs. xs ! k = x \<and> P x \<and> (\<forall>j. k < j \<and> j < length xs \<longrightarrow> \<not> P (xs ! j))"
proof (induction xs rule: rev_induct)
  case Nil
  then show ?case by simp
next
  case (snoc a xs)
  show ?case
  proof (cases "P a")
    case True
    with snoc.prems have "x = a" by simp
    with True have "length xs < length (xs @ [a]) \<and> (xs @ [a]) ! length xs = x \<and> P x
        \<and> (\<forall>j. length xs < j \<and> j < length (xs @ [a]) \<longrightarrow> \<not> P ((xs @ [a]) ! j))"
      by auto
    then show ?thesis by (rule_tac x = "length xs" in exI)
  next
    case False
    with snoc.prems have "find P (rev xs) = Some x" by simp
    from snoc.IH [OF this] obtain k where k: "k < length xs" "xs ! k = x" "P x"
      "\<forall>j. k < j \<and> j < length xs \<longrightarrow> \<not> P (xs ! j)"
      by blast
    have "\<not> P ((xs @ [a]) ! j)" if "k < j" "j < length (xs @ [a])" for j
    proof (cases "j < length xs")
      case True
      with k(4) that(1) show ?thesis by (simp add: nth_append)
    next
      case False
      with that(2) have "j = length xs" by simp
      with \<open>\<not> P a\<close> show ?thesis by simp
    qed
    with k(1,2,3) have "k < length (xs @ [a]) \<and> (xs @ [a]) ! k = x \<and> P x
        \<and> (\<forall>j. k < j \<and> j < length (xs @ [a]) \<longrightarrow> \<not> P ((xs @ [a]) ! j))"
      by (simp add: nth_append)
    then show ?thesis by (rule_tac x = k in exI)
  qed
qed


lemma closest_is_nearest:
  assumes "closest sel d p = Some (q, e)"
  shows "(\<exists>r. p = q @ r) \<and> elemAt d q = Some e \<and> sel e
       \<and> (\<forall>k. length q < k \<and> k \<le> length p \<longrightarrow>
             (\<exists>a. elemAt d (take k p) = Some a \<and> \<not> sel a))"
proof -
  from assms have ex: "elemAt d p \<noteq> None"
    and f: "find (\<lambda>n. sel (snd n)) (rev (chain d [] p)) = Some (q, e)"
    by (auto simp: closest_def split: option.splits)
  from chain_nth [OF ex, of "[]"]
  have len: "length (chain d [] p) = Suc (length p)"
    and nth: "\<And>k. k \<le> length p \<Longrightarrow>
                \<exists>a. elemAt d (take k p) = Some a \<and> chain d [] p ! k = (take k p, a)"
    by auto
  from find_rev_Some [OF f] obtain k where k: "k < length (chain d [] p)"
    "chain d [] p ! k = (q, e)" "sel e"
    "\<forall>j. k < j \<and> j < length (chain d [] p) \<longrightarrow> \<not> sel (snd (chain d [] p ! j))"
    by auto
  from k(1) len have kl: "k \<le> length p" by simp
  from nth [OF kl] k(2) have q: "q = take k p" and at: "elemAt d q = Some e" by auto
  from q kl have lq: "length q = k" by simp
  have pre: "p = q @ drop k p" using q by simp
  have far: "\<exists>a. elemAt d (take j p) = Some a \<and> \<not> sel a" if "length q < j" "j \<le> length p" for j
  proof -
    from nth [OF that(2)] obtain a where a: "elemAt d (take j p) = Some a"
      "chain d [] p ! j = (take j p, a)" by blast
    from that lq len k(4) have "\<not> sel (snd (chain d [] p ! j))" by simp
    with a show ?thesis by simp
  qed
  from pre at k(3) far show ?thesis by blast
qed

text \<open>Every element below a node is among its descendants.\<close>

lemma descendants_complete:
  "elemAt e0 (i # r) = Some e \<Longrightarrow> (pre @ i # r, e) \<in> set (descendants pre e0)"
  "j < length ks \<Longrightarrow> elemAt (ks ! j) r' = Some e' \<Longrightarrow>
     (pre' @ (i' + j) # r', e') \<in> set (descendantsFrom pre' i' ks)"
proof (induction pre e0 and pre' i' ks arbitrary: i r e and j r' e'
    rule: descendants_descendantsFrom.induct)
  case (1 pre t cs c h ks)
  from "1.prems" have lt: "i < length ks" and at: "elemAt (ks ! i) r = Some e"
    by (auto split: if_splits)
  from "1.IH" [OF lt at] show ?case by simp
next
  case (2 pre i)
  then show ?case by simp
next
  case (3 pre i k ks)
  show ?case
  proof (cases j)
    case 0
    with "3.prems" have at: "elemAt k r' = Some e'" by simp
    show ?thesis
    proof (cases r')
      case Nil
      with at 0 show ?thesis by simp
    next
      case (Cons a rs)
      from "3.IH"(1) [of a rs e'] at Cons
      have "((pre @ [i]) @ a # rs, e') \<in> set (descendants (pre @ [i]) k)" by simp
      with 0 Cons show ?thesis by simp
    qed
  next
    case (Suc j')
    with "3.prems" have "j' < length ks" "elemAt (ks ! j') r' = Some e'" by simp_all
    from "3.IH"(2) [OF this] Suc show ?thesis by simp
  qed
qed

lemma createHeaderIndex_Some:
  "createHeaderIndex n = Some hi \<Longrightarrow> h_el hi = n \<and> toolbars hi \<noteq> []"
  by (auto simp: createHeaderIndex_def Let_def split: if_splits)

subsection \<open>The helpers\<close>

lemma remainingHeightLoop_sum:
  "remainingHeightLoop i tbs acc =
     acc + (\<Sum>k = i..<length tbs. clientHeight (snd (tb_el (tbs ! k))))"
proof (induction i tbs acc rule: remainingHeightLoop.induct)
  case (1 i tbs acc)
  show ?case
  proof (cases "int i \<le> int (length tbs) - 1")
    case True
    then have lt: "i < length tbs" by linarith
    have "remainingHeightLoop i tbs acc =
            remainingHeightLoop (i + 1) tbs (acc + clientHeight (snd (tb_el (tbs ! i))))"
      using True by (subst remainingHeightLoop.simps) simp
    also have "\<dots> = acc + clientHeight (snd (tb_el (tbs ! i)))
                 + (\<Sum>k = i + 1..<length tbs. clientHeight (snd (tb_el (tbs ! k))))"
      using "1.IH" [OF True] .
    also have "\<dots> = acc + (\<Sum>k = i..<length tbs. clientHeight (snd (tb_el (tbs ! k))))"
      using lt by (simp add: sum.atLeast_Suc_lessThan)
    finally show ?thesis .
  next
    case False
    then have "length tbs \<le> i" by linarith
    moreover have "remainingHeightLoop i tbs acc = acc"
      using False by (subst remainingHeightLoop.simps) simp
    ultimately show ?thesis by simp
  qed
qed

lemma cloneElement_idem: "cloneElement t (cloneElement t s) = cloneElement t s"
  by (simp add: cloneElement_def)

lemma clamp_mono: "a \<le> b \<Longrightarrow> clamp lo a hi \<le> clamp lo b hi"
  by (auto simp: clamp_def max_def min_def)

lemma clamp_bounds: "lo \<le> hi \<Longrightarrow> lo \<le> clamp lo n hi \<and> clamp lo n hi \<le> hi"
  by (auto simp: clamp_def max_def min_def)

lemma titleScaleFactor_antimono:
  assumes "minScale \<le> 1" "0 < d" "s1 \<le> s2"
  shows "titleScaleFactor minScale d s2 \<le> titleScaleFactor minScale d s1"
proof -
  have "(1 - minScale) * s1 \<le> (1 - minScale) * s2"
    using assms by (intro mult_left_mono) auto
  then have "(1 - minScale) * s1 / d \<le> (1 - minScale) * s2 / d"
    using assms(2) by (simp add: divide_right_mono)
  then show ?thesis
    unfolding titleScaleFactor_def by (intro clamp_mono) simp
qed

subsection \<open>A successful setup\<close>

lemma setup_success:
  assumes "setupSucceeds ev s sEl mi si"
  shows "checkCollapsibleHeader ev s =
           setupWriteTask
             (s\<lparr>scrollEl := Some sEl, collapsibleHeaderInitialized := True,
                isActive := (isActive s)(fst (h_el mi) := False),
                contentScrollCallback := Some (registeredCallback sEl mi si),
                listeners := listeners s @ [(sEl, registeredCallback sEl mi si)],
                intersectionObserver := Some (nextObserver s),
                nextObserver := Suc (nextObserver s),
                observers := observers s @ [(nextObserver s, createdObserver mi si)]\<rparr>)"
proof -
  from assms obtain pg c mh where
    cc: "canCollapse ev" and ni: "\<not> collapsibleHeaderInitialized s"
    and pg: "locatePageEl ev = Some pg" and c: "locateContentEl ev = Some c"
    and sc: "getScrollElement ev (fst c) = Some sEl"
    and mh: "findMainHeader pg = Some mh" and mi: "createHeaderIndex mh = Some mi"
    and si: "Option.bind (selfNode ev) createHeaderIndex = Some si"
    by (auto simp: setupSucceeds_def split: option.splits Option.bind_splits)
  from si have "toolbars si \<noteq> []"
    by (auto dest: createHeaderIndex_Some split: Option.bind_splits)
  then obtain t ts where tb: "toolbars si = t # ts" by (cases "toolbars si") auto
  show ?thesis
    using cc ni
    by (simp add: checkCollapsibleHeader_def setupCollapsibleHeader_def pg c sc
        setupReadTask_def mh mi si Let_def observerReadTask_def tb setHeaderActive_def
        registeredCallback_def createdObserver_def)
qed

lemma main_not_self:
  assumes "setupSucceeds ev s sEl mi si"
  shows "fst (h_el si) = self ev \<and> fst (h_el mi) \<noteq> self ev"
proof -
  from assms obtain pg mh sn where
    cc: "canCollapse ev" and pg: "locatePageEl ev = Some pg"
    and mh: "findMainHeader pg = Some mh" and mi: "createHeaderIndex mh = Some mi"
    and sn: "selfNode ev = Some sn" and si: "createHeaderIndex sn = Some si"
    by (auto simp: setupSucceeds_def split: option.splits Option.bind_splits)
  from sn obtain es where es: "elemAt (document ev) (self ev) = Some es" and sn': "sn = (self ev, es)"
    by (auto simp: selfNode_def split: option.splits)
  from cc es have cond: "collapseProp es = Some ''condense''"
    by (auto simp: canCollapse_def thisCollapse_def Let_def split: if_splits)
  from pg have "closest (isTag ''ion-tabs'') (document ev) (self ev) = Some pg
      \<or> closest pageSelector (document ev) (self ev) = Some pg"
    by (auto simp: locatePageEl_def Let_def split: option.splits)
  then have pgAt: "elemAt (document ev) (fst pg) = Some (snd pg)"
    by (auto dest: closest_elemAt)
  from mh have "mh \<in> set (querySelectorAll (isTag ''ion-header'') pg)"
    and nc: "collapseProp (snd mh) \<noteq> Some ''condense''"
    by (auto simp: findMainHeader_def dest: find_SomeD)
  from querySelectorAll_elemAt [OF pgAt this(1)]
  have mhAt: "elemAt (document ev) (fst mh) = Some (snd mh)" by simp
  from mhAt es cond nc have "fst mh \<noteq> self ev" by auto
  with createHeaderIndex_Some [OF mi] createHeaderIndex_Some [OF si] sn'
  show ?thesis by simp
qed

subsection \<open>What the events leave alone\<close>

lemma setupWriteTask_clones_only:
  "\<exists>cl. setupWriteTask s = s\<lparr>clones := cl\<rparr>"
proof -
  have one: "\<exists>cl. cloneElement t u = u\<lparr>clones := cl\<rparr>" for t u
  proof (cases "t \<in> set (clones u)")
    case True
    then have "cloneElement t u = u\<lparr>clones := clones u\<rparr>" by (simp add: cloneElement_def)
    then show ?thesis by blast
  next
    case False
    then show ?thesis by (auto simp: cloneElement_def)
  qed
  from one [of "''ion-title''" s] obtain c1 where
    c1: "cloneElement ''ion-title'' s = s\<lparr>clones := c1\<rparr>" by blast
  from one [of "''ion-back-button''" "s\<lparr>clones := c1\<rparr>"] obtain c2 where
    "cloneElement ''ion-back-button'' (s\<lparr>clones := c1\<rparr>) = s\<lparr>clones := c1\<rparr>\<lparr>clones := c2\<rparr>"
    by blast
  with c1 have "setupWriteTask s = s\<lparr>clones := c2\<rparr>" by (simp add: setupWriteTask_def)
  then show ?thesis by blast
qed

lemma fold_scroll_fields:
  "\<exists>a b. fold (\<lambda>l t. if fst l = el then handleContentScroll m y (snd l) t else t) ls s
           = s\<lparr>titleScale := a, borderVisible := b\<rparr>"
proof (induction ls arbitrary: s)
  case Nil
  have "s = s\<lparr>titleScale := titleScale s, borderVisible := borderVisible s\<rparr>" by simp
  then show ?case by (metis fold_simps(1))
next
  case (Cons l ls)
  let ?f = "\<lambda>l t. if fst l = el then handleContentScroll m y (snd l) t else t"
  obtain a b where ab: "?f l s = s\<lparr>titleScale := a, borderVisible := b\<rparr>"
  proof (cases "fst l = el")
    case True
    then show ?thesis using that by (simp add: handleContentScroll_def)
  next
    case False
    then have "?f l s = s\<lparr>titleScale := titleScale s, borderVisible := borderVisible s\<rparr>"
      by simp
    then show ?thesis using that by blast
  qed
  from Cons.IH [of "s\<lparr>titleScale := a, borderVisible := b\<rparr>"] obtain a' b' where
    "fold ?f ls (s\<lparr>titleScale := a, borderVisible := b\<rparr>)
       = s\<lparr>titleScale := a, borderVisible := b\<rparr>\<lparr>titleScale := a', borderVisible := b'\<rparr>"
    by blast
  with ab have "fold ?f (l # ls) s = s\<lparr>titleScale := a', borderVisible := b'\<rparr>" by simp
  then show ?case by blast
qed

lemma fireScroll_fields:
  "\<exists>a b. fireScroll m el y s = s\<lparr>titleScale := a, borderVisible := b\<rparr>"
  unfolding fireScroll_def by (rule fold_scroll_fields)

lemma fireIntersection_fields:
  "\<exists>act. fireIntersection c h ratio s = s\<lparr>isActive := act\<rparr>"
proof -
  have same: "\<exists>act. s = s\<lparr>isActive := act\<rparr>"
    by (rule exI [of _ "isActive s"]) simp
  have fired: "\<exists>act. handleToolbarIntersection c ratio mi si s = s\<lparr>isActive := act\<rparr>"
    for mi si
    by (rule exI [of _ "(isActive s)(fst (h_el mi) := ratio < c,
                                       fst (h_el si) := \<not> ratio < c)"])
      (simp add: handleToolbarIntersection_def setHeaderActive_def Let_def)
  show ?thesis
  proof (cases "map_of (observers s) h")
    case None
    with same show ?thesis by (simp add: fireIntersection_def)
  next
    case (Some ob)
    show ?thesis
    proof (cases "targets ob = []")
      case True
      with Some same show ?thesis by (simp add: fireIntersection_def)
    next
      case False
      with Some fired [of "ob_main ob" "ob_scroll ob"] show ?thesis
        by (simp add: fireIntersection_def)
    qed
  qed
qed

lemma destroy_initialized:
  "collapsibleHeaderInitialized (destroyCollapsibleHeader s) = collapsibleHeaderInitialized s"
  by (simp add: destroyCollapsibleHeader_def Let_def split: option.splits)

lemma destroy_isActive: "isActive (destroyCollapsibleHeader s) = isActive s"
  by (simp add: destroyCollapsibleHeader_def Let_def split: option.splits)

lemma destroy_observers_subset:
  "set (observers (destroyCollapsibleHeader s)) \<subseteq> set (observers s)"
  by (auto simp: destroyCollapsibleHeader_def Let_def split: option.splits)


lemma destroy_console: "console (destroyCollapsibleHeader s) = console s"
  by (simp add: destroyCollapsibleHeader_def Let_def split: option.splits)


lemma setupReadTask_flag:
  "collapsibleHeaderInitialized (fst (setupReadTask ev pg s)) = collapsibleHeaderInitialized s
   \<and> console (fst (setupReadTask ev pg s)) = console s"
  by (simp add: setupReadTask_def setHeaderActive_def Let_def split: option.splits)

lemma observerReadTask_flag:
  "collapsibleHeaderInitialized (observerReadTask mi si s) = collapsibleHeaderInitialized s
   \<and> console (observerReadTask mi si s) = console s"
  by (simp add: observerReadTask_def Let_def split: list.splits)

lemma setupWriteTask_flag:
  "collapsibleHeaderInitialized (setupWriteTask s) = collapsibleHeaderInitialized s
   \<and> console (setupWriteTask s) = console s"
proof -
  from setupWriteTask_clones_only [of s] obtain cl where "setupWriteTask s = s\<lparr>clones := cl\<rparr>"
    by blast
  then show ?thesis by simp
qed

lemma setup_effect:
  "(collapsibleHeaderInitialized (setupCollapsibleHeader ev c p s)
      \<and> console (setupCollapsibleHeader ev c p s) = console s)
   \<or> setupCollapsibleHeader ev c p s = s\<lparr>console := console s @ [contentErrorMessage]\<rparr>"
  by (simp add: setupCollapsibleHeader_def Let_def setupWriteTask_flag observerReadTask_flag
      setupReadTask_flag split: option.splits)

lemma setup_changes:
  assumes "\<not> collapsibleHeaderInitialized s"
  shows "setupCollapsibleHeader ev c p s \<noteq> s"
proof
  assume eq: "setupCollapsibleHeader ev c p s = s"
  from setup_effect [of ev c p s] show False
  proof
    assume "collapsibleHeaderInitialized (setupCollapsibleHeader ev c p s)
      \<and> console (setupCollapsibleHeader ev c p s) = console s"
    with eq assms show False by simp
  next
    assume "setupCollapsibleHeader ev c p s = s\<lparr>console := console s @ [contentErrorMessage]\<rparr>"
    with eq have "console s = console (s\<lparr>console := console s @ [contentErrorMessage]\<rparr>)"
      by simp
    then show False by simp
  qed
qed

lemma distinct_count_list: "distinct xs \<Longrightarrow> x \<in> set xs \<Longrightarrow> count_list xs x = 1"
  by (induction xs) auto

lemma cloneElement_clones:
  "distinct (clones s) \<Longrightarrow> distinct (clones (cloneElement t s))"
  "set (clones (cloneElement t s)) = insert t (set (clones s))"
  by (auto simp: cloneElement_def)

lemma settings_succeeds:
  "setupSucceeds (settingsEnv (Some ''condense'') ''ios'') (fresh allActive) [1]
     primaryIndex condensingIndex"
  by code_simp

lemma destroy_releases:
  assumes "intersectionObserver s = Some h" and "observers s = [(h, ob)]"
    and "scrollEl s = Some el" and "contentScrollCallback s = Some cb"
    and "listeners s = [(el, cb)]"
  shows "observers (destroyCollapsibleHeader s) = []
       \<and> listeners (destroyCollapsibleHeader s) = []
       \<and> intersectionObserver (destroyCollapsibleHeader s) = None
       \<and> contentScrollCallback (destroyCollapsibleHeader s) = None"
  using assms by (simp add: destroyCollapsibleHeader_def)

lemma missing_content_soft_failure:
  assumes "canCollapse ev" and "\<not> collapsibleHeaderInitialized s"
    and "locateContentEl ev = None"
  shows "checkCollapsibleHeader ev s = s\<lparr>console := console s @ [contentErrorMessage]\<rparr>"
  using assms by (simp add: checkCollapsibleHeader_def setupCollapsibleHeader_def)

lemma check_initialized_noop:
  "canCollapse ev \<Longrightarrow> collapsibleHeaderInitialized s \<Longrightarrow> checkCollapsibleHeader ev s = s"
  by (simp add: checkCollapsibleHeader_def)

lemma content_has_page: "locateContentEl ev = Some c \<Longrightarrow> \<exists>pg. locatePageEl ev = Some pg"
  by (auto simp: locateContentEl_def split: option.splits)

lemma missing_main_header_state:
  assumes "canCollapse ev" and "\<not> collapsibleHeaderInitialized s"
    and "locateContentEl ev = Some c" and "Option.bind (locatePageEl ev) findMainHeader = None"
  shows "\<exists>cl. checkCollapsibleHeader ev s =
           s\<lparr>scrollEl := getScrollElement ev (fst c), collapsibleHeaderInitialized := True,
             clones := cl\<rparr>"
proof -
  from content_has_page [OF assms(3)] obtain pg where pg: "locatePageEl ev = Some pg" by blast
  with assms(4) have mh: "findMainHeader pg = None" by simp
  from setupWriteTask_clones_only
         [of "s\<lparr>scrollEl := getScrollElement ev (fst c), collapsibleHeaderInitialized := True\<rparr>"]
  obtain cl where
    "setupWriteTask (s\<lparr>scrollEl := getScrollElement ev (fst c),
                        collapsibleHeaderInitialized := True\<rparr>)
       = s\<lparr>scrollEl := getScrollElement ev (fst c), collapsibleHeaderInitialized := True,
           clones := cl\<rparr>"
    by auto
  moreover have "checkCollapsibleHeader ev s =
      setupWriteTask (s\<lparr>scrollEl := getScrollElement ev (fst c),
                         collapsibleHeaderInitialized := True\<rparr>)"
    using assms(1,2,3) pg mh
    by (simp add: checkCollapsibleHeader_def setupCollapsibleHeader_def setupReadTask_def)
  ultimately show ?thesis by auto
qed

subsection \<open>Hooks, promises and frames\<close>

text \<open>
  A hook that nothing interrupts, from a page with no hook suspended and no task queued:
  the three events have the effect of \<open>checkCollapsibleHeader\<close>.
\<close>

lemma frame_no_tasks: "readTasks p = [] \<Longrightarrow> writeTasks p = 0 \<Longrightarrow> frame p = p"
  by (simp add: frame_def runReadTasks_def runNestedReadTasks_def runWriteTasks_def)

lemma frame_one_task:
  assumes "readTasks p = [(ev, pg)]" and "writeTasks p = Suc 0"
  shows "frame p =
           p\<lparr>ctl := setupWriteTask
                     (case snd (setupReadTask ev pg (ctl p)) of
                        None \<Rightarrow> fst (setupReadTask ev pg (ctl p))
                      | Some idx \<Rightarrow>
                          observerReadTask (fst idx) (snd idx) (fst (setupReadTask ev pg (ctl p)))),
             readTasks := [], writeTasks := 0\<rparr>"
  using assms
  by (cases "snd (setupReadTask ev pg (ctl p))")
    (simp_all add: frame_def runReadTasks_def runNestedReadTasks_def runWriteTasks_def Let_def)

lemma undisturbed_cycle:
  "run cutoff minScale (quiet s) [ComponentDidLoad ev, PromiseResolved 0, Frame]
     = quiet (checkCollapsibleHeader ev s)"
proof -
  consider (down) "\<not> canCollapse ev" "collapsibleHeaderInitialized s"
    | (up) "canCollapse ev" "\<not> collapsibleHeaderInitialized s"
    | (idle) "canCollapse ev = collapsibleHeaderInitialized s"
    by auto
  then show ?thesis
  proof cases
    case down
    then show ?thesis
      by (simp add: run_def enterHook_def resumeHook_def checkCollapsibleHeader_def quiet_def
          frame_no_tasks)
  next
    case idle
    then show ?thesis
      by (auto simp: run_def enterHook_def resumeHook_def checkCollapsibleHeader_def quiet_def
          frame_no_tasks)
  next
    case up
    show ?thesis
    proof (cases "locateContentEl ev")
      case None
      with up show ?thesis
        by (simp add: run_def enterHook_def resumeHook_def checkCollapsibleHeader_def quiet_def
            frame_no_tasks setupCollapsibleHeader_def)
    next
      case (Some c)
      then obtain pg where pg: "locatePageEl ev = Some pg"
        by (auto dest: content_has_page)
      let ?p = "\<lparr>ctl = s\<lparr>scrollEl := getScrollElement ev (fst c),
                              collapsibleHeaderInitialized := True\<rparr>,
                 awaiting = [], readTasks = [(ev, pg)], writeTasks = Suc 0\<rparr>"
      have "resumeHook 0 (enterHook ev (quiet s)) = ?p"
        using up Some pg by (simp add: enterHook_def resumeHook_def quiet_def)
      moreover have "frame ?p = quiet (checkCollapsibleHeader ev s)"
        using up Some pg
        by (subst frame_one_task [of ?p ev pg])
          (simp_all add: checkCollapsibleHeader_def setupCollapsibleHeader_def Let_def quiet_def
            cong: option.case_cong)
      ultimately show ?thesis by (simp add: run_def)
    qed
  qed
qed

lemma setupWriteTask_keeps:
  "observers (setupWriteTask s) = observers s"
  "listeners (setupWriteTask s) = listeners s"
  "isActive (setupWriteTask s) = isActive s"
  "contentScrollCallback (setupWriteTask s) = contentScrollCallback s"
proof -
  from setupWriteTask_clones_only [of s] obtain cl where "setupWriteTask s = s\<lparr>clones := cl\<rparr>"
    by blast
  then show "observers (setupWriteTask s) = observers s"
    and "listeners (setupWriteTask s) = listeners s"
    and "isActive (setupWriteTask s) = isActive s"
    and "contentScrollCallback (setupWriteTask s) = contentScrollCallback s"
    by simp_all
qed

lemma setupReadTask_None:
  "snd (setupReadTask ev pg s) = None \<Longrightarrow> fst (setupReadTask ev pg s) = s"
  by (auto simp: setupReadTask_def Let_def split: option.splits)

lemma setupReadTask_Some:
  "snd (setupReadTask ev pg s) = Some idx \<Longrightarrow>
     \<exists>sEl. scrollEl s = Some sEl
       \<and> Option.bind (findMainHeader pg) createHeaderIndex = Some (fst idx)
       \<and> Option.bind (selfNode ev) createHeaderIndex = Some (snd idx)"
  by (auto simp: setupReadTask_def Let_def split: option.splits)

lemma destroy_lengths:
  "length (observers (destroyCollapsibleHeader s)) \<le> length (observers s)"
  "length (listeners (destroyCollapsibleHeader s)) \<le> length (listeners s)"
  by (auto simp: destroyCollapsibleHeader_def Let_def length_remove1 split: option.splits)

lemma registration_needs_success:
  assumes "length (observers s) < length (observers (checkCollapsibleHeader ev s))
           \<or> length (listeners s) < length (listeners (checkCollapsibleHeader ev s))"
  shows "\<exists>sEl mi si. setupSucceeds ev s sEl mi si"
proof -
  let ?s' = "checkCollapsibleHeader ev s"
  have grow: "length (observers s) < length (observers ?s')
              \<or> length (listeners s) < length (listeners ?s')"
    by (rule assms)
  have cc: "canCollapse ev" and ni: "\<not> collapsibleHeaderInitialized s"
  proof -
    have "canCollapse ev \<and> \<not> collapsibleHeaderInitialized s"
    proof (rule ccontr)
      assume "\<not> (canCollapse ev \<and> \<not> collapsibleHeaderInitialized s)"
      then have "?s' = destroyCollapsibleHeader s \<or> ?s' = s"
        by (auto simp: checkCollapsibleHeader_def)
      with grow destroy_lengths [of s] show False by auto
    qed
    then show "canCollapse ev" and "\<not> collapsibleHeaderInitialized s" by simp_all
  qed
  have eq: "?s' = setupCollapsibleHeader ev (locateContentEl ev) (locatePageEl ev) s"
    using cc ni by (simp add: checkCollapsibleHeader_def)
  obtain c where c: "locateContentEl ev = Some c"
  proof (cases "locateContentEl ev")
    case None
    with eq grow show ?thesis by (simp add: setupCollapsibleHeader_def)
  next
    case (Some c)
    then show ?thesis by (rule that)
  qed
  from content_has_page [OF c] obtain pg where pg: "locatePageEl ev = Some pg" by blast
  let ?s2 = "s\<lparr>scrollEl := getScrollElement ev (fst c), collapsibleHeaderInitialized := True\<rparr>"
  obtain idx where idx: "snd (setupReadTask ev pg ?s2) = Some idx"
  proof (cases "snd (setupReadTask ev pg ?s2)")
    case None
    with setupReadTask_None [OF None] have "?s' = setupWriteTask ?s2"
      by (simp add: eq c pg setupCollapsibleHeader_def)
    with grow show ?thesis by (simp add: setupWriteTask_keeps)
  next
    case (Some idx)
    then show ?thesis by (rule that)
  qed
  from setupReadTask_Some [OF idx] obtain sEl where
    "getScrollElement ev (fst c) = Some sEl"
    "Option.bind (findMainHeader pg) createHeaderIndex = Some (fst idx)"
    "Option.bind (selfNode ev) createHeaderIndex = Some (snd idx)"
    by auto
  with cc ni c pg have "setupSucceeds ev s sEl (fst idx) (snd idx)"
    by (simp add: setupSucceeds_def)
  then show ?thesis by blast
qed

lemma setup_registers:
  assumes "setupSucceeds ev s sEl mi si"
  shows "listeners (checkCollapsibleHeader ev s) = listeners s @ [(sEl, registeredCallback sEl mi si)]"
    and "observers (checkCollapsibleHeader ev s)
           = observers s @ [(nextObserver s, createdObserver mi si)]"
    and "contentScrollCallback (checkCollapsibleHeader ev s) = Some (registeredCallback sEl mi si)"
    and "intersectionObserver (checkCollapsibleHeader ev s) = Some (nextObserver s)"
    and "collapsibleHeaderInitialized (checkCollapsibleHeader ev s)"
    and "isActive (checkCollapsibleHeader ev s) = (isActive s)(fst (h_el mi) := False)"
proof -
  from setupWriteTask_clones_only obtain cl where
    eq: "checkCollapsibleHeader ev s =
           s\<lparr>scrollEl := Some sEl, collapsibleHeaderInitialized := True,
             isActive := (isActive s)(fst (h_el mi) := False),
             contentScrollCallback := Some (registeredCallback sEl mi si),
             listeners := listeners s @ [(sEl, registeredCallback sEl mi si)],
             intersectionObserver := Some (nextObserver s),
             nextObserver := Suc (nextObserver s),
             observers := observers s @ [(nextObserver s, createdObserver mi si)]\<rparr>
           \<lparr>clones := cl\<rparr>"
    unfolding setup_success [OF assms] by blast
  show "listeners (checkCollapsibleHeader ev s) = listeners s @ [(sEl, registeredCallback sEl mi si)]"
    and "observers (checkCollapsibleHeader ev s)
           = observers s @ [(nextObserver s, createdObserver mi si)]"
    and "contentScrollCallback (checkCollapsibleHeader ev s) = Some (registeredCallback sEl mi si)"
    and "intersectionObserver (checkCollapsibleHeader ev s) = Some (nextObserver s)"
    and "collapsibleHeaderInitialized (checkCollapsibleHeader ev s)"
    and "isActive (checkCollapsibleHeader ev s) = (isActive s)(fst (h_el mi) := False)"
    unfolding eq by simp_all
qed



lemma step_exclusive:
  assumes ne: "pm \<noteq> ps"
    and q: "awaiting p = []" "readTasks p = []" "writeTasks p = 0"
    and ini: "collapsibleHeaderInitialized (ctl p)"
    and obs: "\<forall>ho \<in> set (observers (ctl p)).
                fst (h_el (ob_main (snd ho))) = pm \<and> fst (h_el (ob_scroll (snd ho))) = ps"
    and ex: "isActive (ctl p) pm \<noteq> isActive (ctl p) ps"
  shows "awaiting (step c m p e) = [] \<and> readTasks (step c m p e) = []
       \<and> writeTasks (step c m p e) = 0
       \<and> collapsibleHeaderInitialized (ctl (step c m p e))
       \<and> (\<forall>ho \<in> set (observers (ctl (step c m p e))).
            fst (h_el (ob_main (snd ho))) = pm \<and> fst (h_el (ob_scroll (snd ho))) = ps)
       \<and> isActive (ctl (step c m p e)) pm \<noteq> isActive (ctl (step c m p e)) ps"
proof -
  let ?d = "p\<lparr>ctl := destroyCollapsibleHeader (ctl p)\<rparr>"
  have down: "awaiting ?d = [] \<and> readTasks ?d = [] \<and> writeTasks ?d = 0
       \<and> collapsibleHeaderInitialized (ctl ?d)
       \<and> (\<forall>ho \<in> set (observers (ctl ?d)).
            fst (h_el (ob_main (snd ho))) = pm \<and> fst (h_el (ob_scroll (snd ho))) = ps)
       \<and> isActive (ctl ?d) pm \<noteq> isActive (ctl ?d) ps"
    using q ini obs ex destroy_observers_subset [of "ctl p"]
    by (auto simp: destroy_isActive destroy_initialized)
  have hook: "enterHook ev p = ?d \<or> enterHook ev p = p" for ev
    using ini by (simp add: enterHook_def)
  show ?thesis
  proof (cases e)
    case (ComponentDidLoad ev)
    with hook [of ev] down q ini obs ex show ?thesis by auto
  next
    case (ComponentDidUpdate ev)
    with hook [of ev] down q ini obs ex show ?thesis by auto
  next
    case ComponentDidUnload
    with down show ?thesis by simp
  next
    case (PromiseResolved k)
    with q ini obs ex show ?thesis by (simp add: resumeHook_def)
  next
    case Frame
    with q ini obs ex show ?thesis by (simp add: frame_no_tasks)
  next
    case (ScrollEvent el y)
    from fireScroll_fields [of m el y "ctl p"] obtain a b where
      "fireScroll m el y (ctl p) = (ctl p)\<lparr>titleScale := a, borderVisible := b\<rparr>" by blast
    with ScrollEvent q ini obs ex show ?thesis by simp
  next
    case (IntersectionEvent h ratio)
    show ?thesis
    proof (cases "map_of (observers (ctl p)) h")
      case None
      with IntersectionEvent q ini obs ex show ?thesis by (simp add: fireIntersection_def)
    next
      case (Some ob)
      then have "(h, ob) \<in> set (observers (ctl p))" by (rule map_of_SomeD)
      with obs have pp: "fst (h_el (ob_main ob)) = pm" "fst (h_el (ob_scroll ob)) = ps"
        by auto
      show ?thesis
        using IntersectionEvent Some q ini obs ex ne pp
        by (simp add: fireIntersection_def handleToolbarIntersection_def
            setHeaderActive_def Let_def)
    qed
  qed
qed

lemma run_exclusive:
  assumes "pm \<noteq> ps"
    and "awaiting p = []" "readTasks p = []" "writeTasks p = 0"
    and "collapsibleHeaderInitialized (ctl p)"
    and "\<forall>ho \<in> set (observers (ctl p)).
                fst (h_el (ob_main (snd ho))) = pm \<and> fst (h_el (ob_scroll (snd ho))) = ps"
    and "isActive (ctl p) pm \<noteq> isActive (ctl p) ps"
  shows "isActive (ctl (run c m p evs)) pm \<noteq> isActive (ctl (run c m p evs)) ps"
  using assms
proof (induction evs arbitrary: p)
  case Nil
  then show ?case by (simp add: run_def)
next
  case (Cons e evs)
  from step_exclusive [OF Cons.prems, of c m e]
  have "isActive (ctl (run c m (step c m p e) evs)) pm
          \<noteq> isActive (ctl (run c m (step c m p e) evs)) ps"
    by (intro Cons.IH [OF Cons.prems(1)]) auto
  then show ?case by (simp add: run_def)
qed

lemma run_after_cycle:
  "run c m (quiet s) (ComponentDidLoad ev # PromiseResolved 0 # Frame # evs)
     = run c m (quiet (checkCollapsibleHeader ev s)) evs"
proof -
  have "run c m (quiet s) ([ComponentDidLoad ev, PromiseResolved 0, Frame] @ evs)
          = run c m (run c m (quiet s) [ComponentDidLoad ev, PromiseResolved 0, Frame]) evs"
    unfolding run_def by (rule foldl_append)
  then show ?thesis by (simp add: undisturbed_cycle)
qed

lemma undisturbed_setup_observer:
  assumes "setupSucceeds ev s sEl mi si" and "observers s = []"
  shows "toolbars si \<noteq> []
       \<and> observers (checkCollapsibleHeader ev s) =
           [(nextObserver s,
             \<lparr>threshold = 1 / 4,
              rootMargin = \<lparr>m_top = - int (clientHeight (snd (h_el mi))), m_right = 0,
                             m_bottom = 0, m_left = 0\<rparr>,
              ob_main = mi, ob_scroll = si, targets = [tb_el (toolbars si ! 0)]\<rparr>)]"
proof -
  from assms(1) have "toolbars si \<noteq> []"
    by (auto simp: setupSucceeds_def dest: createHeaderIndex_Some
        split: option.splits Option.bind_splits)
  with setup_registers(2) [OF assms(1)] assms(2) show ?thesis
    by (simp add: createdObserver_def)
qed

section \<open>The claims\<close>

text \<open>
  Claim C1, as amended. In an update cycle with collapse mode on and an eligible platform
  mode, on a controller that is not initialized: when the page container or the content
  cannot be located, the controller logs the failure, sets nothing up and stays not
  initialized, so that the next update cycle enters the setup again; when the content is
  located and the primary header is not, the controller logs nothing and registers no
  scroll listener and no observer, and the flags of the headers are left as they were.
\<close>

theorem soft_failure_when_context_missing:
  assumes "canCollapse ev" and "\<not> collapsibleHeaderInitialized s"
  shows "(locateContentEl ev = None \<longrightarrow>
            checkCollapsibleHeader ev s = s\<lparr>console := console s @ [contentErrorMessage]\<rparr>
            \<and> (canCollapse ev' \<longrightarrow>
                 checkCollapsibleHeader ev' (checkCollapsibleHeader ev s) =
                   setupCollapsibleHeader ev' (locateContentEl ev') (locatePageEl ev')
                     (checkCollapsibleHeader ev s)))
       \<and> (locateContentEl ev = Some c \<and> Option.bind (locatePageEl ev) findMainHeader = None \<longrightarrow>
            console (checkCollapsibleHeader ev s) = console s
            \<and> listeners (checkCollapsibleHeader ev s) = listeners s
            \<and> observers (checkCollapsibleHeader ev s) = observers s
            \<and> contentScrollCallback (checkCollapsibleHeader ev s) = contentScrollCallback s
            \<and> intersectionObserver (checkCollapsibleHeader ev s) = intersectionObserver s
            \<and> isActive (checkCollapsibleHeader ev s) = isActive s)"
proof (intro conjI impI)
  assume none: "locateContentEl ev = None"
  show eq: "checkCollapsibleHeader ev s = s\<lparr>console := console s @ [contentErrorMessage]\<rparr>"
    by (rule missing_content_soft_failure [OF assms none])
  assume "canCollapse ev'"
  then show "checkCollapsibleHeader ev' (checkCollapsibleHeader ev s) =
      setupCollapsibleHeader ev' (locateContentEl ev') (locatePageEl ev')
        (checkCollapsibleHeader ev s)"
    unfolding eq using assms(2) by (simp add: checkCollapsibleHeader_def)
next
  assume a: "locateContentEl ev = Some c \<and> Option.bind (locatePageEl ev) findMainHeader = None"
  then have a1: "locateContentEl ev = Some c"
    and a2: "Option.bind (locatePageEl ev) findMainHeader = None"
    by simp_all
  from missing_main_header_state [OF assms a1 a2] obtain cl where
    eq: "checkCollapsibleHeader ev s =
           s\<lparr>scrollEl := getScrollElement ev (fst c), collapsibleHeaderInitialized := True,
             clones := cl\<rparr>" ..
  show "console (checkCollapsibleHeader ev s) = console s"
    and "listeners (checkCollapsibleHeader ev s) = listeners s"
    and "observers (checkCollapsibleHeader ev s) = observers s"
    and "contentScrollCallback (checkCollapsibleHeader ev s) = contentScrollCallback s"
    and "intersectionObserver (checkCollapsibleHeader ev s) = intersectionObserver s"
    and "isActive (checkCollapsibleHeader ev s) = isActive s"
    unfolding eq by simp_all
qed

theorem soft_failure_when_context_missing_witness:
  "canCollapse bareEnv
   \<and> \<not> collapsibleHeaderInitialized (fresh allActive)
   \<and> locateContentEl bareEnv = None
   \<and> console (checkCollapsibleHeader bareEnv (fresh allActive)) = [contentErrorMessage]
   \<and> \<not> collapsibleHeaderInitialized (checkCollapsibleHeader bareEnv (fresh allActive))
   \<and> canCollapse orphanEnv
   \<and> checkCollapsibleHeader orphanEnv (checkCollapsibleHeader bareEnv (fresh allActive)) =
       setupCollapsibleHeader orphanEnv (locateContentEl orphanEnv) (locatePageEl orphanEnv)
         (checkCollapsibleHeader bareEnv (fresh allActive))
   \<and> locateContentEl orphanEnv = Some ([0], Elem ''ion-content'' [] None 800
                                            [condensingHeaderEl (Some ''condense'')])
   \<and> Option.bind (locatePageEl orphanEnv) findMainHeader = None
   \<and> console (checkCollapsibleHeader orphanEnv (fresh allActive)) = []
   \<and> listeners (checkCollapsibleHeader orphanEnv (fresh allActive)) = []
   \<and> observers (checkCollapsibleHeader orphanEnv (fresh allActive)) = []"
proof -
  have cb: "canCollapse bareEnv" by code_simp
  have ni: "\<not> collapsibleHeaderInitialized (fresh allActive)" by (simp add: fresh_def)
  have nb: "locateContentEl bareEnv = None" by code_simp
  have co: "canCollapse orphanEnv" by code_simp
  have ce: "locateContentEl orphanEnv = Some ([0], Elem ''ion-content'' [] None 800
                                            [condensingHeaderEl (Some ''condense'')])"
    by code_simp
  have mh: "Option.bind (locatePageEl orphanEnv) findMainHeader = None" by code_simp
  have fr: "console (fresh allActive) = []" "listeners (fresh allActive) = []"
    "observers (fresh allActive) = []"
    by (simp_all add: fresh_def)
  from soft_failure_when_context_missing [OF cb ni, of orphanEnv] nb co
  have b1: "checkCollapsibleHeader bareEnv (fresh allActive)
              = (fresh allActive)\<lparr>console := console (fresh allActive) @ [contentErrorMessage]\<rparr>"
    and b2: "checkCollapsibleHeader orphanEnv (checkCollapsibleHeader bareEnv (fresh allActive)) =
       setupCollapsibleHeader orphanEnv (locateContentEl orphanEnv) (locatePageEl orphanEnv)
         (checkCollapsibleHeader bareEnv (fresh allActive))"
    by blast+
  from b1 have b3: "console (checkCollapsibleHeader bareEnv (fresh allActive))
                      = [contentErrorMessage]"
    and b4: "\<not> collapsibleHeaderInitialized (checkCollapsibleHeader bareEnv (fresh allActive))"
    by (simp_all add: fresh_def)
  from soft_failure_when_context_missing [OF co ni, of _ "([0], Elem ''ion-content'' [] None 800
                                            [condensingHeaderEl (Some ''condense'')])"] ce mh fr
  have o: "console (checkCollapsibleHeader orphanEnv (fresh allActive)) = []"
    "listeners (checkCollapsibleHeader orphanEnv (fresh allActive)) = []"
    "observers (checkCollapsibleHeader orphanEnv (fresh allActive)) = []"
    by simp_all
  from cb ni nb b3 b4 co b2 ce mh o show ?thesis by blast
qed

text \<open>
  The claim as stated also promises, for a missing primary header, a logged failure and
  a controller that stays not initialized and retries. On the page with a content and
  no primary header the update cycle logs nothing, runs the element mirror, and leaves
  the initialized flag set, and the next cycle, on a page that has a primary header,
  changes nothing.
\<close>

theorem missing_primary_header_counterexample:
  "canCollapse orphanEnv
   \<and> locateContentEl orphanEnv = Some ([0], Elem ''ion-content'' [] None 800
                                            [condensingHeaderEl (Some ''condense'')])
   \<and> Option.bind (locatePageEl orphanEnv) findMainHeader = None
   \<and> console orphanState = []
   \<and> clones orphanState = [''ion-title'', ''ion-back-button'']
   \<and> observers orphanState = []
   \<and> listeners orphanState = []
   \<and> collapsibleHeaderInitialized orphanState
   \<and> checkCollapsibleHeader (settingsEnv (Some ''condense'') ''ios'') orphanState = orphanState"
proof -
  have cc: "canCollapse orphanEnv" by code_simp
  have ce: "locateContentEl orphanEnv = Some ([0], Elem ''ion-content'' [] None 800
                                            [condensingHeaderEl (Some ''condense'')])"
    by code_simp
  have mh: "Option.bind (locatePageEl orphanEnv) findMainHeader = None" by code_simp
  have co: "console orphanState = []" by code_simp
  have cl: "clones orphanState = [''ion-title'', ''ion-back-button'']" by code_simp
  have ob: "observers orphanState = []" by code_simp
  have li: "listeners orphanState = []" by code_simp
  have ini: "collapsibleHeaderInitialized orphanState" by code_simp
  have on: "canCollapse (settingsEnv (Some ''condense'') ''ios'')" by code_simp
  from cc ce mh co cl ob li ini check_initialized_noop [OF on ini] show ?thesis by blast
qed

text \<open>
  Claim C2. When an update finds an Active controller with collapse mode off or the
  platform mode not eligible, the controller disconnects the observer, removes the
  scroll listener, and resets to Disabled, so that a later update with collapsing on
  sets the header up again.

  The code releases the observer and the listener (lemma \<open>destroy_releases\<close>) and
  leaves the initialized flag set: on the settings page, after the teardown the flag
  is still true, and the update with collapsing on again changes nothing, so no
  observer and no listener come back.
\<close>

theorem teardown_leaves_initialized_flag:
  "length (observers settingsActive) = 1
   \<and> length (listeners settingsActive) = 1
   \<and> observers settingsTornDown = []
   \<and> listeners settingsTornDown = []
   \<and> intersectionObserver settingsTornDown = None
   \<and> contentScrollCallback settingsTornDown = None
   \<and> collapsibleHeaderInitialized settingsTornDown
   \<and> checkCollapsibleHeader (settingsEnv (Some ''condense'') ''ios'') settingsTornDown
       = settingsTornDown"
proof -
  have a1: "length (observers settingsActive) = 1" by code_simp
  have a2: "length (listeners settingsActive) = 1" by code_simp
  have t1: "observers settingsTornDown = []" by code_simp
  have t2: "listeners settingsTornDown = []" by code_simp
  have t3: "intersectionObserver settingsTornDown = None" by code_simp
  have t4: "contentScrollCallback settingsTornDown = None" by code_simp
  have ini: "collapsibleHeaderInitialized settingsTornDown" by code_simp
  have on: "canCollapse (settingsEnv (Some ''condense'') ''ios'')" by code_simp
  from a1 a2 t1 t2 t3 t4 ini check_initialized_noop [OF on ini] show ?thesis by blast
qed




text \<open>
  Claim C4. When setup succeeds, the visibility observer has threshold 0.25 and a root
  margin whose top offset is the negative of the primary header's rendered height, it
  observes exactly the first toolbar of the condensing header's index, and exactly one
  observer is live until teardown.

  An update cycle that runs undisturbed creates that observer, and only that one (lemma
  \<open>undisturbed_setup_observer\<close>). The initialized flag is set only after the
  \<open>await\<close>, so two hooks that overlap both pass the test of the flag: on the settings
  page they leave two observers and two scroll listeners, the class keeps the handle of
  the second observer only, and the teardown leaves the first observer and one listener
  behind.
\<close>

theorem overlapping_hooks_two_observers:
  "length (observers (ctl (run (1 / 4) (1 / 2) (quiet (fresh allActive)) overlappingHooks))) = 2
   \<and> length (listeners (ctl (run (1 / 4) (1 / 2) (quiet (fresh allActive)) overlappingHooks))) = 2
   \<and> intersectionObserver (ctl (run (1 / 4) (1 / 2) (quiet (fresh allActive)) overlappingHooks))
       = Some 1
   \<and> map fst (observers (ctl (run (1 / 4) (1 / 2) (quiet (fresh allActive))
        (overlappingHooks @ [ComponentDidUpdate (settingsEnv None ''ios'')])))) = [0]
   \<and> length (listeners (ctl (run (1 / 4) (1 / 2) (quiet (fresh allActive))
        (overlappingHooks @ [ComponentDidUpdate (settingsEnv None ''ios'')])))) = 1"
proof -
  have a: "length (observers (ctl (run (1 / 4) (1 / 2) (quiet (fresh allActive))
             overlappingHooks))) = 2"
    by code_simp
  have b: "length (listeners (ctl (run (1 / 4) (1 / 2) (quiet (fresh allActive))
             overlappingHooks))) = 2"
    by code_simp
  have c: "intersectionObserver (ctl (run (1 / 4) (1 / 2) (quiet (fresh allActive))
             overlappingHooks)) = Some 1"
    by code_simp
  have d: "map fst (observers (ctl (run (1 / 4) (1 / 2) (quiet (fresh allActive))
        (overlappingHooks @ [ComponentDidUpdate (settingsEnv None ''ios'')])))) = [0]"
    by code_simp
  have e: "length (listeners (ctl (run (1 / 4) (1 / 2) (quiet (fresh allActive))
        (overlappingHooks @ [ComponentDidUpdate (settingsEnv None ''ios'')])))) = 1"
    by code_simp
  from a b c d e show ?thesis by blast
qed

text \<open>
  Claim C5. The remaining height passed to the scroll handler is the sum of the client
  heights of the toolbars at indices 1 to n - 1 of the condensing header's index; for a
  header with exactly one toolbar it is 0.

  After a successful setup the registered scroll callback, which is the listener added
  to the scroll element, carries that sum.
\<close>

theorem remaining_height_sum:
  assumes "setupSucceeds ev s sEl mi si"
  shows "contentScrollCallback (checkCollapsibleHeader ev s) =
           Some \<lparr>cb_scrollEl = sEl, cb_main = mi, cb_scroll = si,
                 cb_remainingHeight =
                   (\<Sum>i = 1..<length (toolbars si). clientHeight (snd (tb_el (toolbars si ! i))))\<rparr>
       \<and> listeners (checkCollapsibleHeader ev s) =
           listeners s @ [(sEl, the (contentScrollCallback (checkCollapsibleHeader ev s)))]
       \<and> (length (toolbars si) = 1 \<longrightarrow>
            map_option cb_remainingHeight (contentScrollCallback (checkCollapsibleHeader ev s))
              = Some 0)"
proof -
  let ?s' = "checkCollapsibleHeader ev s"
  from setupWriteTask_clones_only obtain cl where
    eq: "?s' = s\<lparr>scrollEl := Some sEl, collapsibleHeaderInitialized := True,
                isActive := (isActive s)(fst (h_el mi) := False),
                contentScrollCallback := Some (registeredCallback sEl mi si),
                listeners := listeners s @ [(sEl, registeredCallback sEl mi si)],
                intersectionObserver := Some (nextObserver s),
                nextObserver := Suc (nextObserver s),
                observers := observers s @ [(nextObserver s, createdObserver mi si)]\<rparr>
              \<lparr>clones := cl\<rparr>"
    unfolding setup_success [OF assms(1)] by blast
  have cb: "contentScrollCallback ?s' = Some (registeredCallback sEl mi si)" by (simp add: eq)
  have ls: "listeners ?s' = listeners s @ [(sEl, registeredCallback sEl mi si)]" by (simp add: eq)
  have rh: "remainingHeightLoop 1 (toolbars si) 0 =
      (\<Sum>i = 1..<length (toolbars si). clientHeight (snd (tb_el (toolbars si ! i))))"
    by (simp add: remainingHeightLoop_sum)
  have rh1: "length (toolbars si) = 1 \<Longrightarrow> remainingHeightLoop 1 (toolbars si) 0 = 0"
    unfolding rh by simp
  show ?thesis
    unfolding cb ls using rh rh1 by (simp add: registeredCallback_def)
qed

theorem remaining_height_sum_witness:
  "setupSucceeds (settingsEnv (Some ''condense'') ''ios'') (fresh allActive) [1]
     primaryIndex condensingIndex
   \<and> contentScrollCallback
        (checkCollapsibleHeader (settingsEnv (Some ''condense'') ''ios'') (fresh allActive)) =
       Some \<lparr>cb_scrollEl = [1], cb_main = primaryIndex, cb_scroll = condensingIndex,
             cb_remainingHeight = 48\<rparr>"
proof -
  have sm: "(\<Sum>i = 1..<length (toolbars condensingIndex).
               clientHeight (snd (tb_el (toolbars condensingIndex ! i)))) = 48"
    by (simp add: condensingIndex_def toolbarEl_def)
  from remaining_height_sum [OF settings_succeeds] settings_succeeds
  show ?thesis unfolding sm by simp
qed

text \<open>
  Claim C6, as amended. Once a controller with no live observer has become Active
  through an update cycle that ran undisturbed on a page where the active flag of the
  condensing header was set, exactly one of the primary header and the condensing header
  has its active flag true, after the setup and after any events that follow it; and an
  intersection callback leaves the two flags opposite whatever they were before.

  The handler of the intersection callback and the flag are modelled from the spec. The
  setup clears the flag of the primary header and does not touch the flag of the
  condensing header.
\<close>

theorem active_flags_exclusive_after_setup:
  assumes "setupSucceeds ev s sEl mi si" and "observers s = []" and "isActive s (self ev)"
  shows "fst (h_el si) = self ev
       \<and> isActive (ctl (run cutoff minScale (quiet s)
            (ComponentDidLoad ev # PromiseResolved 0 # Frame # evs))) (fst (h_el mi))
           \<noteq> isActive (ctl (run cutoff minScale (quiet s)
            (ComponentDidLoad ev # PromiseResolved 0 # Frame # evs))) (self ev)
       \<and> isActive (handleToolbarIntersection cutoff ratio mi si t) (fst (h_el mi))
           \<noteq> isActive (handleToolbarIntersection cutoff ratio mi si t) (self ev)"
proof -
  let ?s' = "checkCollapsibleHeader ev s"
  from main_not_self [OF assms(1)] have self: "fst (h_el si) = self ev"
    and ne: "fst (h_el mi) \<noteq> self ev" by auto
  have obs: "\<forall>ho \<in> set (observers (ctl (quiet ?s'))).
      fst (h_el (ob_main (snd ho))) = fst (h_el mi)
      \<and> fst (h_el (ob_scroll (snd ho))) = self ev"
    using assms(2) self by (simp add: setup_registers [OF assms(1)] createdObserver_def quiet_def)
  have ex: "isActive (ctl (quiet ?s')) (fst (h_el mi)) \<noteq> isActive (ctl (quiet ?s')) (self ev)"
    using assms(3) ne by (auto simp: setup_registers [OF assms(1)] quiet_def)
  have ini: "collapsibleHeaderInitialized (ctl (quiet ?s'))"
    by (simp add: setup_registers [OF assms(1)] quiet_def)
  have q: "awaiting (quiet ?s') = []" "readTasks (quiet ?s') = []" "writeTasks (quiet ?s') = 0"
    by (simp_all add: quiet_def)
  have cb: "isActive (handleToolbarIntersection cutoff ratio mi si t) (fst (h_el mi))
           \<noteq> isActive (handleToolbarIntersection cutoff ratio mi si t) (self ev)"
    using ne self by (simp add: handleToolbarIntersection_def setHeaderActive_def Let_def)
  from run_exclusive [OF ne q ini obs ex, of cutoff minScale evs] self cb
  show ?thesis unfolding run_after_cycle by simp
qed

theorem active_flags_exclusive_after_setup_witness:
  "setupSucceeds (settingsEnv (Some ''condense'') ''ios'') (fresh allActive) [1]
     primaryIndex condensingIndex
   \<and> observers (fresh allActive) = []
   \<and> isActive (fresh allActive) (self (settingsEnv (Some ''condense'') ''ios''))
   \<and> isActive (ctl (run (1 / 4) (1 / 2) (quiet (fresh allActive))
        (ComponentDidLoad (settingsEnv (Some ''condense'') ''ios'') # PromiseResolved 0 # Frame #
         [IntersectionEvent 0 0, ScrollEvent [1] 60,
          ComponentDidUpdate (settingsEnv (Some ''condense'') ''ios''), PromiseResolved 0, Frame,
          IntersectionEvent 0 1]))) [0]
      \<noteq> isActive (ctl (run (1 / 4) (1 / 2) (quiet (fresh allActive))
        (ComponentDidLoad (settingsEnv (Some ''condense'') ''ios'') # PromiseResolved 0 # Frame #
         [IntersectionEvent 0 0, ScrollEvent [1] 60,
          ComponentDidUpdate (settingsEnv (Some ''condense'') ''ios''), PromiseResolved 0, Frame,
          IntersectionEvent 0 1]))) [1, 0]
   \<and> isActive (handleToolbarIntersection (1 / 4) 0 primaryIndex condensingIndex
         (fresh noneActive)) [0]
      \<noteq> isActive (handleToolbarIntersection (1 / 4) 0 primaryIndex condensingIndex
         (fresh noneActive)) [1, 0]"
proof -
  have no: "observers (fresh allActive) = []" by (simp add: fresh_def)
  have ac: "isActive (fresh allActive) (self (settingsEnv (Some ''condense'') ''ios''))"
    by (simp add: fresh_def allActive_def)
  have se: "self (settingsEnv (Some ''condense'') ''ios'') = [1, 0]"
    by (simp add: settingsEnv_def)
  have pm: "fst (h_el primaryIndex) = [0]" by (simp add: primaryIndex_def)
  from active_flags_exclusive_after_setup [OF settings_succeeds no ac, of "1 / 4" "1 / 2"
         "[IntersectionEvent 0 0, ScrollEvent [1] 60,
           ComponentDidUpdate (settingsEnv (Some ''condense'') ''ios''), PromiseResolved 0, Frame,
           IntersectionEvent 0 1]" 0 "fresh noneActive"]
       settings_succeeds no ac
  show ?thesis unfolding se pm by simp
qed

text \<open>
  The claim as stated holds for every controller that is Active. On a page where the
  condensing header is not marked active the setup leaves neither header active. So does
  a second setup, of an overlapping hook, that runs after an intersection callback has
  marked the primary header active.
\<close>

theorem active_flags_counterexample:
  "setupSucceeds (settingsEnv (Some ''condense'') ''ios'') (fresh noneActive) [1]
     primaryIndex condensingIndex
   \<and> \<not> isActive
        (checkCollapsibleHeader (settingsEnv (Some ''condense'') ''ios'') (fresh noneActive)) [0]
   \<and> \<not> isActive
        (checkCollapsibleHeader (settingsEnv (Some ''condense'') ''ios'') (fresh noneActive))
        [1, 0]
   \<and> \<not> isActive (ctl (run (1 / 4) (1 / 2) (quiet (fresh allActive)) lateSecondSetup)) [0]
   \<and> \<not> isActive (ctl (run (1 / 4) (1 / 2) (quiet (fresh allActive)) lateSecondSetup)) [1, 0]"
proof -
  have a: "setupSucceeds (settingsEnv (Some ''condense'') ''ios'') (fresh noneActive) [1]
     primaryIndex condensingIndex"
    by code_simp
  have b: "\<not> isActive
        (checkCollapsibleHeader (settingsEnv (Some ''condense'') ''ios'') (fresh noneActive)) [0]"
    by code_simp
  have c: "\<not> isActive
        (checkCollapsibleHeader (settingsEnv (Some ''condense'') ''ios'') (fresh noneActive))
        [1, 0]"
    by code_simp
  have d: "\<not> isActive (ctl (run (1 / 4) (1 / 2) (quiet (fresh allActive)) lateSecondSetup)) [0]"
    by code_simp
  have e: "\<not> isActive (ctl (run (1 / 4) (1 / 2) (quiet (fresh allActive)) lateSecondSetup))
             [1, 0]"
    by code_simp
  from a b c d e show ?thesis by blast
qed

text \<open>
  Claim C7. Invoking the element mirror twice is idempotent: afterwards there is exactly
  one clone for each mirror-eligible element, the title and the back button, never two.

  The clone operation is modelled from the spec. The write task of the setup is the
  element mirror; running it again changes nothing, and from a state in which no clone
  is duplicated each of the two tags has exactly one clone.
\<close>

theorem mirror_idempotent:
  "setupWriteTask (setupWriteTask s) = setupWriteTask s
   \<and> (distinct (clones s) \<longrightarrow>
        count_list (clones (setupWriteTask (setupWriteTask s))) ''ion-title'' = 1
        \<and> count_list (clones (setupWriteTask (setupWriteTask s))) ''ion-back-button'' = 1)"
proof (intro conjI impI)
  show idem: "setupWriteTask (setupWriteTask s) = setupWriteTask s"
    by (simp add: setupWriteTask_def cloneElement_def)
  assume d: "distinct (clones s)"
  have dist: "distinct (clones (setupWriteTask s))"
    unfolding setupWriteTask_def by (intro cloneElement_clones(1) d)
  have mem: "''ion-title'' \<in> set (clones (setupWriteTask s))"
    "''ion-back-button'' \<in> set (clones (setupWriteTask s))"
    unfolding setupWriteTask_def by (simp_all add: cloneElement_clones(2))
  show "count_list (clones (setupWriteTask (setupWriteTask s))) ''ion-title'' = 1"
    unfolding idem by (rule distinct_count_list [OF dist mem(1)])
  show "count_list (clones (setupWriteTask (setupWriteTask s))) ''ion-back-button'' = 1"
    unfolding idem by (rule distinct_count_list [OF dist mem(2)])
qed

theorem mirror_idempotent_witness:
  "distinct (clones (fresh allActive))
   \<and> count_list (clones (setupWriteTask (setupWriteTask (fresh allActive)))) ''ion-title'' = 1
   \<and> count_list (clones (setupWriteTask (setupWriteTask (fresh allActive)))) ''ion-back-button'' = 1"
proof -
  have d: "distinct (clones (fresh allActive))" by (simp add: fresh_def)
  with mirror_idempotent [of "fresh allActive"] show ?thesis by blast
qed

text \<open>
  Claim C8. For scroll offsets 0 \<le> s1 \<le> s2 the title scale computed by the scroll
  handler at s2 is at most the one at s1, and the scale always lies between the minimum
  scale and 1.

  The scroll handler is modelled from the spec, over the rationals. The minimum scale
  is at most 1 and the remaining height over which the scale interpolates is positive;
  the offsets need not stay below the remaining height.
\<close>

theorem scale_monotone_bounded:
  assumes "minScale \<le> 1" and "0 < cb_remainingHeight cb" and "0 \<le> s1" and "s1 \<le> s2"
  shows "titleScale (handleContentScroll minScale s2 cb st)
           \<le> titleScale (handleContentScroll minScale s1 cb st)
         \<and> minScale \<le> titleScale (handleContentScroll minScale s1 cb st)
         \<and> titleScale (handleContentScroll minScale s1 cb st) \<le> 1
         \<and> minScale \<le> titleScale (handleContentScroll minScale s2 cb st)
         \<and> titleScale (handleContentScroll minScale s2 cb st) \<le> 1"
  using assms titleScaleFactor_antimono [of minScale "of_nat (cb_remainingHeight cb)" s1 s2]
    clamp_bounds [of minScale 1]
  by (simp add: handleContentScroll_def titleScaleFactor_def)

theorem scale_monotone_bounded_witness:
  "(1 / 2 :: rat) \<le> 1
   \<and> 0 < cb_remainingHeight (registeredCallback [1] primaryIndex condensingIndex)
   \<and> (0 :: rat) \<le> 12 \<and> (12 :: rat) \<le> 24
   \<and> titleScale (handleContentScroll (1 / 2) 24
        (registeredCallback [1] primaryIndex condensingIndex) (fresh allActive))
      \<le> titleScale (handleContentScroll (1 / 2) 12
        (registeredCallback [1] primaryIndex condensingIndex) (fresh allActive))
   \<and> 1 / 2 \<le> titleScale (handleContentScroll (1 / 2) 24
        (registeredCallback [1] primaryIndex condensingIndex) (fresh allActive))"
proof -
  have r: "0 < cb_remainingHeight (registeredCallback [1] primaryIndex condensingIndex)"
    by (simp add: registeredCallback_def remainingHeightLoop_sum condensingIndex_def
        toolbarEl_def)
  from scale_monotone_bounded [of "1 / 2"
         "registeredCallback [1] primaryIndex condensingIndex" 12 24 "fresh allActive"] r
  show ?thesis by simp
qed

text \<open>
  Claim C9. During setup the page container is the closest \<open>ion-tabs\<close> ancestor when
  there is one, and otherwise the closest ancestor matching
  \<open>ion-app, ion-page, .ion-page, page-inner\<close>; within the container the primary
  header is the first \<open>ion-header\<close> in document order whose \<open>collapse\<close> property is
  not \<open>condense\<close>.

  A successful setup creates an observer for the primary header it has found. Whenever
  an update cycle creates an observer, the primary header that the observer and the
  scroll callback capture, and whose flag the setup clears, is that first header of that
  container.
\<close>

theorem setup_uses_page_and_primary_header_precedence:
  "(setupSucceeds ev s sEl mi si \<longrightarrow>
      (\<exists>ob'. observers (checkCollapsibleHeader ev s) = observers s @ [(nextObserver s, ob')]
             \<and> ob_main ob' = mi))
   \<and> (observers (checkCollapsibleHeader ev s) = observers s @ [(h, ob)] \<longrightarrow>
      (\<exists>pageEl.
           (closest (isTag ''ion-tabs'') (document ev) (self ev) = Some t \<longrightarrow> pageEl = t)
         \<and> (closest (isTag ''ion-tabs'') (document ev) (self ev) = None \<longrightarrow>
              closest pageSelector (document ev) (self ev) = Some pageEl)
         \<and> (\<exists>i < length (querySelectorAll (isTag ''ion-header'') pageEl).
              querySelectorAll (isTag ''ion-header'') pageEl ! i = h_el (ob_main ob)
              \<and> tag (snd (h_el (ob_main ob))) = ''ion-header''
              \<and> collapseProp (snd (h_el (ob_main ob))) \<noteq> Some ''condense''
              \<and> (\<forall>j < i. collapseProp (snd (querySelectorAll (isTag ''ion-header'') pageEl ! j))
                            = Some ''condense''))
         \<and> map_option cb_main (contentScrollCallback (checkCollapsibleHeader ev s))
             = Some (ob_main ob)
         \<and> \<not> isActive (checkCollapsibleHeader ev s) (fst (h_el (ob_main ob)))))"
proof (intro conjI impI)
  assume ok: "setupSucceeds ev s sEl mi si"
  have "observers (checkCollapsibleHeader ev s)
          = observers s @ [(nextObserver s, createdObserver mi si)]
        \<and> ob_main (createdObserver mi si) = mi"
    by (simp add: setup_registers(2) [OF ok] createdObserver_def)
  then show "\<exists>ob'. observers (checkCollapsibleHeader ev s)
                     = observers s @ [(nextObserver s, ob')] \<and> ob_main ob' = mi"
    by (rule exI)
next
  assume reg: "observers (checkCollapsibleHeader ev s) = observers s @ [(h, ob)]"
  then have "length (observers s) < length (observers (checkCollapsibleHeader ev s))"
    by simp
  then obtain sEl mi si where ok: "setupSucceeds ev s sEl mi si"
    using registration_needs_success [of s ev] by blast
  from setup_registers(2) [OF ok] reg have ob: "ob = createdObserver mi si" by simp
  then have main: "ob_main ob = mi" by (simp add: createdObserver_def)
  from ok obtain pg mh where pg: "locatePageEl ev = Some pg"
    and mh: "findMainHeader pg = Some mh" and mi: "createHeaderIndex mh = Some mi"
    by (auto simp: setupSucceeds_def split: option.splits Option.bind_splits)
  from createHeaderIndex_Some [OF mi] have hel: "h_el mi = mh" by simp
  let ?hs = "querySelectorAll (isTag ''ion-header'') pg"
  from mh obtain i where i: "i < length ?hs" "?hs ! i = mh"
    "collapseProp (snd mh) \<noteq> Some ''condense''"
    "\<forall>j < i. collapseProp (snd (?hs ! j)) = Some ''condense''"
    by (auto simp: findMainHeader_def find_Some_iff)
  from i(1,2) have "mh \<in> set ?hs" by auto
  then have tg: "tag (snd mh) = ''ion-header''" by (simp add: querySelectorAll_def isTag_def)
  have p1: "closest (isTag ''ion-tabs'') (document ev) (self ev) = Some t \<longrightarrow> pg = t"
    using pg by (simp add: locatePageEl_def Let_def split: option.splits)
  have p2: "closest (isTag ''ion-tabs'') (document ev) (self ev) = None \<longrightarrow>
              closest pageSelector (document ev) (self ev) = Some pg"
    using pg by (simp add: locatePageEl_def Let_def split: option.splits)
  have first: "\<exists>i < length ?hs. ?hs ! i = h_el (ob_main ob)
      \<and> tag (snd (h_el (ob_main ob))) = ''ion-header''
      \<and> collapseProp (snd (h_el (ob_main ob))) \<noteq> Some ''condense''
      \<and> (\<forall>j < i. collapseProp (snd (?hs ! j)) = Some ''condense'')"
    unfolding main hel using i tg by blast
  have cb: "map_option cb_main (contentScrollCallback (checkCollapsibleHeader ev s))
             = Some (ob_main ob)"
    by (simp add: setup_registers(3) [OF ok] main registeredCallback_def)
  have fl: "\<not> isActive (checkCollapsibleHeader ev s) (fst (h_el (ob_main ob)))"
    by (simp add: setup_registers(6) [OF ok] main)
  from p1 p2 first cb fl
  show "\<exists>pageEl.
           (closest (isTag ''ion-tabs'') (document ev) (self ev) = Some t \<longrightarrow> pageEl = t)
         \<and> (closest (isTag ''ion-tabs'') (document ev) (self ev) = None \<longrightarrow>
              closest pageSelector (document ev) (self ev) = Some pageEl)
         \<and> (\<exists>i < length (querySelectorAll (isTag ''ion-header'') pageEl).
              querySelectorAll (isTag ''ion-header'') pageEl ! i = h_el (ob_main ob)
              \<and> tag (snd (h_el (ob_main ob))) = ''ion-header''
              \<and> collapseProp (snd (h_el (ob_main ob))) \<noteq> Some ''condense''
              \<and> (\<forall>j < i. collapseProp (snd (querySelectorAll (isTag ''ion-header'') pageEl ! j))
                            = Some ''condense''))
         \<and> map_option cb_main (contentScrollCallback (checkCollapsibleHeader ev s))
             = Some (ob_main ob)
         \<and> \<not> isActive (checkCollapsibleHeader ev s) (fst (h_el (ob_main ob)))"
    by (intro exI [of _ pg] conjI)
qed

theorem setup_uses_page_and_primary_header_precedence_witness:
  "setupSucceeds tabsEnv (fresh allActive) [0, 0, 2] (ob_main tabsObserver)
     (ob_scroll tabsObserver)
   \<and> observers (checkCollapsibleHeader tabsEnv (fresh allActive))
       = observers (fresh allActive) @ [(0, tabsObserver)]
   \<and> closest (isTag ''ion-tabs'') (document tabsEnv) (self tabsEnv) = Some ([0], tabsEl)
   \<and> map_option fst (closest pageSelector (document tabsEnv) (self tabsEnv)) = Some [0, 0]
   \<and> map fst (querySelectorAll (isTag ''ion-header'') ([0], tabsEl))
       = [[0, 0, 0], [0, 0, 1], [0, 0, 2, 0]]
   \<and> h_el (ob_main tabsObserver) = ([0, 0, 1], primaryHeaderEl)
   \<and> (\<exists>i < length (querySelectorAll (isTag ''ion-header'') ([0], tabsEl)).
        querySelectorAll (isTag ''ion-header'') ([0], tabsEl) ! i = h_el (ob_main tabsObserver)
        \<and> tag (snd (h_el (ob_main tabsObserver))) = ''ion-header''
        \<and> collapseProp (snd (h_el (ob_main tabsObserver))) \<noteq> Some ''condense''
        \<and> (\<forall>j < i. collapseProp
                       (snd (querySelectorAll (isTag ''ion-header'') ([0], tabsEl) ! j))
                     = Some ''condense''))
   \<and> \<not> isActive (checkCollapsibleHeader tabsEnv (fresh allActive)) [0, 0, 1]
   \<and> observers (checkCollapsibleHeader (settingsEnv (Some ''condense'') ''ios'') (fresh allActive))
       = observers (fresh allActive) @ [(0, createdObserver primaryIndex condensingIndex)]
   \<and> closest (isTag ''ion-tabs'') (document (settingsEnv (Some ''condense'') ''ios''))
        (self (settingsEnv (Some ''condense'') ''ios'')) = None
   \<and> (\<exists>pageEl.
        closest pageSelector (document (settingsEnv (Some ''condense'') ''ios''))
          (self (settingsEnv (Some ''condense'') ''ios'')) = Some pageEl
        \<and> (\<exists>i < length (querySelectorAll (isTag ''ion-header'') pageEl).
              querySelectorAll (isTag ''ion-header'') pageEl ! i = h_el primaryIndex))"
proof -
  have ok: "setupSucceeds tabsEnv (fresh allActive) [0, 0, 2] (ob_main tabsObserver)
     (ob_scroll tabsObserver)"
    by code_simp
  have nx: "nextObserver (fresh allActive) = 0" by (simp add: fresh_def)
  have tc: "closest (isTag ''ion-tabs'') (document tabsEnv) (self tabsEnv) = Some ([0], tabsEl)"
    by code_simp
  have tp: "map_option fst (closest pageSelector (document tabsEnv) (self tabsEnv))
              = Some [0, 0]"
    by code_simp
  have hs: "map fst (querySelectorAll (isTag ''ion-header'') ([0], tabsEl))
              = [[0, 0, 0], [0, 0, 1], [0, 0, 2, 0]]"
    by code_simp
  have he: "h_el (ob_main tabsObserver) = ([0, 0, 1], primaryHeaderEl)"
    by (simp add: tabsObserver_def)
  have sc: "closest (isTag ''ion-tabs'') (document (settingsEnv (Some ''condense'') ''ios''))
        (self (settingsEnv (Some ''condense'') ''ios'')) = None"
    by code_simp
  have hyp2: "observers
      (checkCollapsibleHeader (settingsEnv (Some ''condense'') ''ios'') (fresh allActive))
       = observers (fresh allActive) @ [(0, createdObserver primaryIndex condensingIndex)]"
    using setup_registers(2) [OF settings_succeeds] by (simp add: fresh_def)
  have om: "ob_main (createdObserver primaryIndex condensingIndex) = primaryIndex"
    by (simp add: createdObserver_def)
  from setup_uses_page_and_primary_header_precedence
      [of "settingsEnv (Some ''condense'') ''ios''" "fresh allActive" "[1]" primaryIndex
          condensingIndex 0 "createdObserver primaryIndex condensingIndex" "([0], tabsEl)"]
    hyp2 sc
  obtain pageEl2 where
    "closest pageSelector (document (settingsEnv (Some ''condense'') ''ios''))
          (self (settingsEnv (Some ''condense'') ''ios'')) = Some pageEl2"
    "\<exists>i < length (querySelectorAll (isTag ''ion-header'') pageEl2).
        querySelectorAll (isTag ''ion-header'') pageEl2 ! i
          = h_el (ob_main (createdObserver primaryIndex condensingIndex))
        \<and> tag (snd (h_el (ob_main (createdObserver primaryIndex condensingIndex))))
            = ''ion-header''
        \<and> collapseProp (snd (h_el (ob_main (createdObserver primaryIndex condensingIndex))))
            \<noteq> Some ''condense''
        \<and> (\<forall>j < i. collapseProp (snd (querySelectorAll (isTag ''ion-header'') pageEl2 ! j))
                     = Some ''condense'')"
    by blast
  then have second: "\<exists>pageEl.
        closest pageSelector (document (settingsEnv (Some ''condense'') ''ios''))
          (self (settingsEnv (Some ''condense'') ''ios'')) = Some pageEl
        \<and> (\<exists>i < length (querySelectorAll (isTag ''ion-header'') pageEl).
              querySelectorAll (isTag ''ion-header'') pageEl ! i = h_el primaryIndex)"
    unfolding om by blast
  have hyp: "observers (checkCollapsibleHeader tabsEnv (fresh allActive))
     = observers (fresh allActive) @ [(0, tabsObserver)]"
    by code_simp
  note th = setup_uses_page_and_primary_header_precedence
      [of tabsEnv "fresh allActive" "[0, 0, 2]" "ob_main tabsObserver" "ob_scroll tabsObserver"
          0 tabsObserver "([0], tabsEl)"]
  from th ok nx have "\<exists>ob'. observers (checkCollapsibleHeader tabsEnv (fresh allActive))
      = observers (fresh allActive) @ [(0, ob')] \<and> ob_main ob' = ob_main tabsObserver"
    by simp
  from th hyp tc
  obtain pageEl where pe: "pageEl = ([0], tabsEl)"
    and first: "\<exists>i < length (querySelectorAll (isTag ''ion-header'') pageEl).
        querySelectorAll (isTag ''ion-header'') pageEl ! i = h_el (ob_main tabsObserver)
        \<and> tag (snd (h_el (ob_main tabsObserver))) = ''ion-header''
        \<and> collapseProp (snd (h_el (ob_main tabsObserver))) \<noteq> Some ''condense''
        \<and> (\<forall>j < i. collapseProp (snd (querySelectorAll (isTag ''ion-header'') pageEl ! j))
                     = Some ''condense'')"
    and fl: "\<not> isActive (checkCollapsibleHeader tabsEnv (fresh allActive))
               (fst (h_el (ob_main tabsObserver)))"
    by blast
  from fl he have fl': "\<not> isActive (checkCollapsibleHeader tabsEnv (fresh allActive)) [0, 0, 1]"
    by simp
  from ok hyp tc tp hs he first [unfolded pe] fl' hyp2 sc second show ?thesis by blast
qed



end
